theory Spec2Isabelle
  imports Complex_Main "HOL-Library.Log_Nat"
begin

section \<open>Values of the host language\<close>

text \<open>
  The server is TypeScript; every record it receives from the remote dataset is typed
  \<^verbatim>\<open>any\<close>.  A well-shaped record has the shape of the data model (an extraction record
  with tiers, a tier with a pricing object and a price), and every field the code
  reads through \<^verbatim>\<open>?.\<close>, or that the data model calls optional, is an \<open>option\<close>:
  \<open>None\<close> is JavaScript's \<^verbatim>\<open>undefined\<close> (an absent property).  The records the dataset
  really holds need not be well-shaped; the raw records of the data model below say
  which other shapes are told apart, and the aggregation is evaluated on those.

  Numbers are IEEE doubles in the source.  A finite double is a rational number, and
  \<open>number\<close> is the type of these values.  A comparison of two doubles and the sign of
  their difference are exact, so the comparators below work on the values themselves.
  A product is not exact: it is rounded to a double again (see the products below).
\<close>

type_synonym number = rat

datatype jsnum = Num number | NaN

text \<open>
  \<^verbatim>\<open>ToNumber\<close> on a number or \<^verbatim>\<open>undefined\<close>, and the difference of two numbers as a
  comparator returns it (only its sign is used).
\<close>

fun to_number :: "number option \<Rightarrow> jsnum" where
  "to_number None = NaN"
| "to_number (Some v) = Num v"

fun js_minus :: "jsnum \<Rightarrow> jsnum \<Rightarrow> jsnum" where
  "js_minus (Num a) (Num b) = Num (a - b)"
| "js_minus _ _ = NaN"

text \<open>\<^verbatim>\<open>x > 0\<close>: false when \<^verbatim>\<open>x\<close> is \<^verbatim>\<open>undefined\<close> (it converts to \<^verbatim>\<open>NaN\<close>).\<close>

fun js_gt_zero :: "number option \<Rightarrow> bool" where
  "js_gt_zero None = False"
| "js_gt_zero (Some v) = (0 < v)"

text \<open>Truthiness of a number, a boolean and a string that may be \<^verbatim>\<open>undefined\<close>.\<close>

fun truthy_number :: "number option \<Rightarrow> bool" where
  "truthy_number None = False"
| "truthy_number (Some v) = (v \<noteq> 0)"

fun truthy_bool :: "bool option \<Rightarrow> bool" where
  "truthy_bool None = False"
| "truthy_bool (Some b) = b"

fun truthy_string :: "string option \<Rightarrow> bool" where
  "truthy_string None = False"
| "truthy_string (Some s) = (s \<noteq> [])"

text \<open>\<^verbatim>\<open>xs[0]\<close>: \<^verbatim>\<open>undefined\<close> on an empty array.\<close>

fun index0 :: "'a list \<Rightarrow> 'a option" where
  "index0 [] = None"
| "index0 (x # xs) = Some x"

text \<open>
  \<^verbatim>\<open>Array.prototype.sort(cmp)\<close>.  The sort is stable (ECMAScript 2019; the package asks for
  Node 18), and a comparator result of \<^verbatim>\<open>NaN\<close> counts as \<open>0\<close>.  For a consistent
  comparator the result is the one stable ordering, which insertion from the right
  computes: an element goes in front of the first later element it does not exceed.
\<close>

fun cmp_result :: "jsnum \<Rightarrow> number" where
  "cmp_result NaN = 0"
| "cmp_result (Num v) = v"

fun sort_insert :: "('a \<Rightarrow> 'a \<Rightarrow> jsnum) \<Rightarrow> 'a \<Rightarrow> 'a list \<Rightarrow> 'a list" where
  "sort_insert cmp x [] = [x]"
| "sort_insert cmp x (y # ys) =
     (if cmp_result (cmp x y) \<le> 0 then x # y # ys else y # sort_insert cmp x ys)"

definition js_sort :: "('a \<Rightarrow> 'a \<Rightarrow> jsnum) \<Rightarrow> 'a list \<Rightarrow> 'a list" where
  "js_sort cmp xs = foldr (sort_insert cmp) xs []"

subsection \<open>Products of doubles\<close>

text \<open>
  \<^verbatim>\<open>a * b\<close> on two doubles is the exact product rounded to the nearest double, ties to
  the even significand; it overflows to an infinity and underflows, through the
  subnormal numbers, to zero.  \<open>round_double x\<close> is the double nearest to the rational
  \<open>x\<close>: with \<open>2 ^ e \<le> \<bar>x\<bar> < 2 ^ (e + 1)\<close>, and \<open>e\<close> raised to \<open>- 1022\<close> if it is less, the
  doubles around \<open>x\<close> are the multiples of \<open>2 ^ (e - 52)\<close>; \<open>x\<close> is rounded to one of
  them, and a result of magnitude \<open>2 ^ 1024\<close> is an infinity.  Negative zero is not told
  from zero: \<^verbatim>\<open>JSON.stringify\<close> prints both as \<^verbatim>\<open>0\<close>.
\<close>

datatype double = Double number | Infinity | MinusInfinity | NotANumber

definition pow2 :: "int \<Rightarrow> number" where
  "pow2 k = (if 0 \<le> k then 2 ^ nat k else 1 / 2 ^ nat (- k))"

text \<open>The \<open>e\<close> with \<open>2 ^ e \<le> a < 2 ^ (e + 1)\<close>, for \<open>0 < a\<close>.\<close>

definition floor_log2 :: "number \<Rightarrow> int" where
  "floor_log2 a =
     (if 1 \<le> a then bitlen \<lfloor>a\<rfloor> - 1
      else - bitlen (\<lceil>1 / a\<rceil> - 1))"

definition round_half_even :: "number \<Rightarrow> int" where
  "round_half_even y =
     (let f = \<lfloor>y\<rfloor>; d = y - of_int f
      in if d < 1 / 2 then f
         else if 1 / 2 < d then f + 1
         else if even f then f else f + 1)"

definition round_double :: "number \<Rightarrow> double" where
  "round_double x =
     (if x = 0 then Double 0
      else (let a = \<bar>x\<bar>;
                e = max (floor_log2 a) (- 1022);
                q = pow2 (e - 52);
                r = of_int (round_half_even (a / q)) * q
            in if pow2 1024 \<le> r then (if 0 < x then Infinity else MinusInfinity)
               else Double (if 0 < x then r else - r)))"

text \<open>
  \<^verbatim>\<open>ToNumber\<close> as an operand of \<^verbatim>\<open>*\<close>: \<^verbatim>\<open>undefined\<close> is \<^verbatim>\<open>NaN\<close>, and a number is its
  double (itself, when it is the value of a double).
\<close>

fun to_double :: "number option \<Rightarrow> double" where
  "to_double None = NotANumber"
| "to_double (Some v) = round_double v"

fun sign_of :: "double \<Rightarrow> int" where
  "sign_of (Double a) = (if a = 0 then 0 else if 0 < a then 1 else - 1)"
| "sign_of Infinity = 1"
| "sign_of MinusInfinity = - 1"
| "sign_of NotANumber = 0"

text \<open>
  \<^verbatim>\<open>x * y\<close>.  An infinity times zero is \<^verbatim>\<open>NaN\<close>; times anything else it is an infinity
  with the product of the signs.
\<close>

fun js_times :: "double \<Rightarrow> double \<Rightarrow> double" where
  "js_times NotANumber y = NotANumber"
| "js_times x NotANumber = NotANumber"
| "js_times (Double a) (Double b) = round_double (a * b)"
| "js_times x y =
     (if sign_of x * sign_of y = 0 then NotANumber
      else if 0 < sign_of x * sign_of y then Infinity else MinusInfinity)"

subsection \<open>Errors\<close>

text \<open>
  What the \<^verbatim>\<open>try\<close> block of the request handler can throw: a failed validation, a
  failed remote call, and the \<^verbatim>\<open>TypeError\<close> of a property read on \<^verbatim>\<open>null\<close> or of a call of
  something that is not a function.
\<close>

datatype error =
    ValidationError "string list"
  | ExtractionError string
  | TypeError

section \<open>Data model\<close>

record pricing =
  pricing_type :: "string option"
  perUnit :: "string option"

record tier =
  name :: string
  pricing :: "pricing option"
  normalizedMonthlyPrice :: "number option"
  features :: "string list option"

text \<open>One record of the remote dataset (\<^verbatim>\<open>item\<close> in the source).\<close>

record item =
  productName :: "string option"
  url :: "string option"
  tiers :: "tier list option"

text \<open>
  A record as the dataset may really hold it.  Three shapes besides the well-shaped
  one make a difference to the aggregation and are told apart: the record itself is
  \<^verbatim>\<open>null\<close>; its \<^verbatim>\<open>tiers\<close> is there but is not an array (a string, a number, an object:
  anything but \<^verbatim>\<open>undefined\<close>, \<^verbatim>\<open>null\<close> and an array); an entry of its \<^verbatim>\<open>tiers\<close> array is
  \<^verbatim>\<open>null\<close>.  The fields of a tier object, and \<^verbatim>\<open>productName\<close> and \<^verbatim>\<open>url\<close>, keep the types
  of the data model.
\<close>

datatype raw_tier = TierNull | TierObject tier

datatype raw_tiers = TiersAbsent | TiersNotArray | TiersArray "raw_tier list"

datatype raw_record =
    RecordNull
  | RecordObject "string option" "string option" raw_tiers

text \<open>A well-shaped record among the raw ones.\<close>

definition raw_of_item :: "item \<Rightarrow> raw_record" where
  "raw_of_item it =
     RecordObject (productName it) (url it)
       (case tiers it of None \<Rightarrow> TiersAbsent | Some ts \<Rightarrow> TiersArray (map TierObject ts))"

text \<open>
  The raw records that are not well-shaped: a null record, a \<^verbatim>\<open>tiers\<close> that is not an
  array, a null entry among the tiers.
\<close>

fun malformed :: "raw_record \<Rightarrow> bool" where
  "malformed RecordNull = True"
| "malformed (RecordObject n u TiersAbsent) = False"
| "malformed (RecordObject n u TiersNotArray) = True"
| "malformed (RecordObject n u (TiersArray rs)) = (TierNull \<in> set rs)"

record team_cost =
  cost_tier :: string
  monthly :: double
  yearly :: double

text \<open>
  An entry of \<^verbatim>\<open>comparison.products\<close>.  Its fields \<^verbatim>\<open>name\<close>, \<^verbatim>\<open>url\<close> and \<^verbatim>\<open>tiers\<close> carry the
  prefix \<open>p_\<close> here, because the tier and the item have fields of these names.
\<close>

record product =
  p_name :: "string option"
  p_url :: "string option"
  tierCount :: nat
  hasFreeTier :: "bool option"
  lowestPaidPrice :: "number option"
  p_tiers :: "tier list option"
  estimatedTeamCost :: "team_cost list option"

text \<open>
  The products are objects, and \<^verbatim>\<open>summary.cheapest\<close> and \<^verbatim>\<open>summary.mostExpensive\<close> hold
  references to them.  The store is the list of the allocated objects, a reference is
  an index into it.  The handler allocates one object per record and never drops one,
  so every reference it holds is below the length of the store (lemmas
  \<open>aggregate_products\<close> and \<open>aggregate_store_length\<close> below).
\<close>

type_synonym ref = nat

record summary =
  cheapest :: "ref option"
  mostExpensive :: "ref option"
  withFreeTier :: "string option list"

record comparison =
  products :: "ref list"
  summary :: summary

section \<open>The aggregation of \<^verbatim>\<open>compare_saas_pricing\<close>\<close>

text \<open>\<^verbatim>\<open>t.pricing?.type === "free"\<close> and \<^verbatim>\<open>t.pricing?.perUnit === "user"\<close>.\<close>

definition is_free :: "tier \<Rightarrow> bool" where
  "is_free t = (Option.bind (pricing t) pricing_type = Some ''free'')"

definition is_per_user :: "tier \<Rightarrow> bool" where
  "is_per_user t = (Option.bind (pricing t) perUnit = Some ''user'')"

text \<open>\<^verbatim>\<open>(a, b) => a.normalizedMonthlyPrice - b.normalizedMonthlyPrice\<close>\<close>

definition tier_cmp :: "tier \<Rightarrow> tier \<Rightarrow> jsnum" where
  "tier_cmp a b =
     js_minus (to_number (normalizedMonthlyPrice a)) (to_number (normalizedMonthlyPrice b))"

text \<open>\<^verbatim>\<open>x || 0\<close> on a length that may be \<^verbatim>\<open>undefined\<close>.\<close>

fun or_zero :: "nat option \<Rightarrow> nat" where
  "or_zero None = 0"
| "or_zero (Some n) = (if n = 0 then 0 else n)"

text \<open>
  \<^verbatim>\<open>item.tiers?.filter(t => t.normalizedMonthlyPrice > 0)
     ?.sort((a, b) => a.normalizedMonthlyPrice - b.normalizedMonthlyPrice)[0]
     ?.normalizedMonthlyPrice\<close>:
  the whole chain is \<^verbatim>\<open>undefined\<close> when \<^verbatim>\<open>tiers\<close> is, and so is its last step when the
  filtered array is empty.  \<^verbatim>\<open>filter\<close> makes a new array, so the sort leaves
  \<^verbatim>\<open>item.tiers\<close> as it was.
\<close>

definition lowest_paid :: "tier list option \<Rightarrow> number option" where
  "lowest_paid ts =
     Option.bind ts (\<lambda>ts.
       Option.bind
         (index0 (js_sort tier_cmp (filter (\<lambda>t. js_gt_zero (normalizedMonthlyPrice t)) ts)))
         normalizedMonthlyPrice)"

text \<open>The object literal of \<^verbatim>\<open>items.map((item: any) => ({ ... }))\<close>.\<close>

definition mk_product :: "item \<Rightarrow> product" where
  "mk_product it =
     \<lparr> p_name = productName it,
       p_url = url it,
       tierCount = or_zero (map_option length (tiers it)),
       hasFreeTier = map_option (list_ex is_free) (tiers it),
       lowestPaidPrice = lowest_paid (tiers it),
       p_tiers = tiers it,
       estimatedTeamCost = None \<rparr>"

text \<open>The store and the comparison object after the literal of \<^verbatim>\<open>const comparison\<close>.\<close>

definition build_comparison :: "item list \<Rightarrow> product list \<times> comparison" where
  "build_comparison items =
     (map mk_product items,
      \<lparr> products = [0 ..< length items],
        summary = \<lparr> cheapest = None, mostExpensive = None, withFreeTier = [] \<rparr> \<rparr>)"

text \<open>
  \<^verbatim>\<open>(a, b) => a.lowestPaidPrice - b.lowestPaidPrice\<close> and its reverse, on references
  into the store \<open>h\<close>.
\<close>

definition price_asc :: "product list \<Rightarrow> ref \<Rightarrow> ref \<Rightarrow> jsnum" where
  "price_asc h a b =
     js_minus (to_number (lowestPaidPrice (h ! a))) (to_number (lowestPaidPrice (h ! b)))"

definition price_desc :: "product list \<Rightarrow> ref \<Rightarrow> ref \<Rightarrow> jsnum" where
  "price_desc h a b =
     js_minus (to_number (lowestPaidPrice (h ! b))) (to_number (lowestPaidPrice (h ! a)))"

text \<open>
  The block under \<^verbatim>\<open>// Calculate summary\<close>.  \<^verbatim>\<open>sort\<close> works in place: the second sort
  starts from the array the first one left.
\<close>

definition calc_summary :: "product list \<times> comparison \<Rightarrow> product list \<times> comparison" where
  "calc_summary hc =
     (let h = fst hc; c = snd hc;
          paidProducts = filter (\<lambda>p. truthy_number (lowestPaidPrice (h ! p))) (products c);
          s0 = summary c;
          s1 = (if length paidProducts > 0
                then (let sorted1 = js_sort (price_asc h) paidProducts;
                          sorted2 = js_sort (price_desc h) sorted1
                      in s0 \<lparr> cheapest := index0 sorted1, mostExpensive := index0 sorted2 \<rparr>)
                else s0);
          s2 = s1 \<lparr> withFreeTier :=
                      map (\<lambda>p. p_name (h ! p))
                        (filter (\<lambda>p. truthy_bool (hasFreeTier (h ! p))) (products c)) \<rparr>
      in (h, c \<lparr> summary := s2 \<rparr>))"

text \<open>
  The block under \<^verbatim>\<open>// Calculate team cost if teamSize provided\<close>.  The guard is
  \<^verbatim>\<open>if (input.teamSize)\<close>, and \<^verbatim>\<open>forEach\<close> writes the new field into each object of the
  store.  \<^verbatim>\<open>yearly\<close> is \<^verbatim>\<open>t.normalizedMonthlyPrice * input.teamSize! * 12\<close>, which
  associates to the left.
\<close>

definition team_cost_of :: "number \<Rightarrow> tier \<Rightarrow> team_cost" where
  "team_cost_of n t =
     \<lparr> cost_tier = name t,
       monthly = js_times (to_double (normalizedMonthlyPrice t)) (to_double (Some n)),
       yearly = js_times (js_times (to_double (normalizedMonthlyPrice t)) (to_double (Some n)))
                  (Double 12) \<rparr>"

definition set_team_cost :: "number \<Rightarrow> product list \<Rightarrow> ref \<Rightarrow> product list" where
  "set_team_cost n h p =
     h [p := (h ! p) \<lparr> estimatedTeamCost :=
                          map_option (\<lambda>ts. map (team_cost_of n) (filter is_per_user ts))
                            (p_tiers (h ! p)) \<rparr>]"

definition calc_team_cost ::
  "number option \<Rightarrow> product list \<times> comparison \<Rightarrow> product list \<times> comparison" where
  "calc_team_cost teamSize hc =
     (case teamSize of
        None \<Rightarrow> hc
      | Some n \<Rightarrow>
          if truthy_number (Some n)
          then (foldl (set_team_cost n) (fst hc) (products (snd hc)), snd hc)
          else hc)"

definition aggregate :: "item list \<Rightarrow> number option \<Rightarrow> product list \<times> comparison" where
  "aggregate items teamSize = calc_team_cost teamSize (calc_summary (build_comparison items))"

text \<open>
  What \<^verbatim>\<open>JSON.stringify(comparison, null, 2)\<close> prints: the tree under the comparison
  object, every reference replaced by the object it points to.  The printer leaves
  out a key whose value is \<^verbatim>\<open>undefined\<close> and prints \<^verbatim>\<open>NaN\<close> and the infinities as
  \<^verbatim>\<open>null\<close>; the tree keeps them as they are.
\<close>

record comparison_result =
  r_products :: "product list"
  r_cheapest :: "product option"
  r_mostExpensive :: "product option"
  r_withFreeTier :: "string option list"

definition serialize :: "product list \<times> comparison \<Rightarrow> comparison_result" where
  "serialize hc =
     (let h = fst hc; c = snd hc in
      \<lparr> r_products = map (\<lambda>p. h ! p) (products c),
        r_cheapest = map_option (\<lambda>p. h ! p) (cheapest (summary c)),
        r_mostExpensive = map_option (\<lambda>p. h ! p) (mostExpensive (summary c)),
        r_withFreeTier = withFreeTier (summary c) \<rparr>)"

subsection \<open>The aggregation on raw records\<close>

text \<open>
  The callback of \<^verbatim>\<open>items.map\<close> reads \<^verbatim>\<open>item.productName\<close> first, which throws on a null
  record.  \<^verbatim>\<open>item.tiers?.some(...)\<close> calls \<^verbatim>\<open>some\<close>, which is not a function unless
  \<^verbatim>\<open>tiers\<close> is an array.  The callbacks of \<^verbatim>\<open>some\<close> and \<^verbatim>\<open>filter\<close> read a property of the
  tier entry, \<^verbatim>\<open>t.pricing\<close> and \<^verbatim>\<open>t.normalizedMonthlyPrice\<close>, which throws on a null
  entry; \<^verbatim>\<open>some\<close> stops at the first entry it finds, \<^verbatim>\<open>filter\<close> visits them all.
\<close>

fun tier_object :: "raw_tier \<Rightarrow> error + tier" where
  "tier_object TierNull = Inl TypeError"
| "tier_object (TierObject t) = Inr t"

fun some_raise :: "(tier \<Rightarrow> bool) \<Rightarrow> raw_tier list \<Rightarrow> error + bool" where
  "some_raise P [] = Inr False"
| "some_raise P (x # xs) =
     (case tier_object x of
        Inl e \<Rightarrow> Inl e
      | Inr t \<Rightarrow> if P t then Inr True else some_raise P xs)"

fun filter_raise :: "(tier \<Rightarrow> bool) \<Rightarrow> raw_tier list \<Rightarrow> error + tier list" where
  "filter_raise P [] = Inr []"
| "filter_raise P (x # xs) =
     (case tier_object x of
        Inl e \<Rightarrow> Inl e
      | Inr t \<Rightarrow>
          (case filter_raise P xs of
             Inl e \<Rightarrow> Inl e
           | Inr ts \<Rightarrow> Inr (if P t then t # ts else ts)))"

text \<open>The tier objects of an array; all its entries, once \<^verbatim>\<open>filter\<close> has visited them.\<close>

fun tier_objects :: "raw_tier list \<Rightarrow> tier list" where
  "tier_objects [] = []"
| "tier_objects (TierNull # xs) = tier_objects xs"
| "tier_objects (TierObject t # xs) = t # tier_objects xs"

text \<open>The object literal of \<^verbatim>\<open>items.map((item: any) => ({ ... }))\<close> on a raw record.\<close>

fun mk_product_raw :: "raw_record \<Rightarrow> error + product" where
  "mk_product_raw RecordNull = Inl TypeError"
| "mk_product_raw (RecordObject n u TiersAbsent) =
     Inr \<lparr> p_name = n, p_url = u, tierCount = or_zero None, hasFreeTier = None,
           lowestPaidPrice = None, p_tiers = None, estimatedTeamCost = None \<rparr>"
| "mk_product_raw (RecordObject n u TiersNotArray) = Inl TypeError"
| "mk_product_raw (RecordObject n u (TiersArray rs)) =
     (case some_raise is_free rs of
        Inl e \<Rightarrow> Inl e
      | Inr free \<Rightarrow>
          (case filter_raise (\<lambda>t. js_gt_zero (normalizedMonthlyPrice t)) rs of
             Inl e \<Rightarrow> Inl e
           | Inr paid \<Rightarrow>
               Inr \<lparr> p_name = n, p_url = u,
                     tierCount = or_zero (Some (length rs)),
                     hasFreeTier = Some free,
                     lowestPaidPrice =
                       Option.bind (index0 (js_sort tier_cmp paid)) normalizedMonthlyPrice,
                     p_tiers = Some (tier_objects rs),
                     estimatedTeamCost = None \<rparr>))"

text \<open>\<^verbatim>\<open>items.map\<close>: the first callback that throws ends the map.\<close>

fun map_raise :: "('a \<Rightarrow> error + 'b) \<Rightarrow> 'a list \<Rightarrow> error + 'b list" where
  "map_raise f [] = Inr []"
| "map_raise f (x # xs) =
     (case f x of
        Inl e \<Rightarrow> Inl e
      | Inr y \<Rightarrow> (case map_raise f xs of Inl e \<Rightarrow> Inl e | Inr ys \<Rightarrow> Inr (y # ys)))"

text \<open>
  The aggregation as the handler runs it: the map, then the two blocks on the product
  objects, which by then hold no null tier.
\<close>

definition aggregate_raw ::
  "raw_record list \<Rightarrow> number option \<Rightarrow> error + product list \<times> comparison" where
  "aggregate_raw raws teamSize =
     (case map_raise mk_product_raw raws of
        Inl e \<Rightarrow> Inl e
      | Inr ps \<Rightarrow>
          Inr (calc_team_cost teamSize
                 (calc_summary
                    (ps,
                     \<lparr> products = [0 ..< length ps],
                       summary = \<lparr> cheapest = None, mostExpensive = None,
                                   withFreeTier = [] \<rparr> \<rparr>))))"

section \<open>Input validation\<close>

text \<open>
  The arguments of a tool call arrive as an untyped value: \<open>None\<close> is \<^verbatim>\<open>undefined\<close>
  (the request carried no arguments).  An object is the list of its properties;
  a property is looked up with \<open>map_of\<close>.
\<close>

datatype json =
    JNull
  | JBool bool
  | JNum number
  | JStr string
  | JArr "json list"
  | JObj "(string \<times> json) list"

datatype proxy_tier = Datacenter | Residential

text \<open>
  The three schemas are built with the validation library \<^verbatim>\<open>zod\<close>, which is not part of
  the repository.  Each field parser below is what the schema's combinators declare;
  the library's test of a well-formed URL is the parameter \<open>is_url\<close>.
  A \<open>ValidationError\<close> lists the fields that did not parse, in the order of the schema
  (no field when the arguments are not an object at all).
\<close>

text \<open>\<^verbatim>\<open>z.string().url()\<close>\<close>

fun parse_url :: "(string \<Rightarrow> bool) \<Rightarrow> json option \<Rightarrow> string option" where
  "parse_url is_url (Some (JStr s)) = (if is_url s then Some s else None)"
| "parse_url is_url _ = None"

text \<open>\<^verbatim>\<open>z.array(z.string().url())\<close>: no minimum length is declared.\<close>

fun parse_url_array :: "(string \<Rightarrow> bool) \<Rightarrow> json option \<Rightarrow> string list option" where
  "parse_url_array is_url (Some (JArr xs)) = those (map (\<lambda>x. parse_url is_url (Some x)) xs)"
| "parse_url_array is_url _ = None"

text \<open>\<^verbatim>\<open>z.enum(["datacenter", "residential"]).default("datacenter")\<close>\<close>

fun parse_proxy_tier :: "json option \<Rightarrow> proxy_tier option" where
  "parse_proxy_tier None = Some Datacenter"
| "parse_proxy_tier (Some (JStr s)) =
     (if s = ''datacenter'' then Some Datacenter
      else if s = ''residential'' then Some Residential
      else None)"
| "parse_proxy_tier _ = None"

text \<open>\<^verbatim>\<open>z.boolean().default(true)\<close>\<close>

fun parse_boolean_default_true :: "json option \<Rightarrow> bool option" where
  "parse_boolean_default_true None = Some True"
| "parse_boolean_default_true (Some (JBool b)) = Some b"
| "parse_boolean_default_true _ = None"

text \<open>\<^verbatim>\<open>z.number().optional()\<close>\<close>

fun parse_number_optional :: "json option \<Rightarrow> number option option" where
  "parse_number_optional None = Some None"
| "parse_number_optional (Some (JNum n)) = Some (Some n)"
| "parse_number_optional _ = None"

definition failed_field :: "string \<Rightarrow> 'a option \<Rightarrow> string list" where
  "failed_field k r = (case r of None \<Rightarrow> [k] | Some _ \<Rightarrow> [])"

record extract_input =
  urls :: "string list"
  proxyTier :: proxy_tier
  extractFeatures :: bool

record compare_input =
  compare_urls :: "string list"
  teamSize :: "number option"

record discover_input =
  page_url :: string

definition ExtractPricingInput :: "(string \<Rightarrow> bool) \<Rightarrow> json option \<Rightarrow> error + extract_input" where
  "ExtractPricingInput is_url args =
     (case args of
        Some (JObj kvs) \<Rightarrow>
          (let u = parse_url_array is_url (map_of kvs ''urls'');
               p = parse_proxy_tier (map_of kvs ''proxyTier'');
               e = parse_boolean_default_true (map_of kvs ''extractFeatures'')
           in case (u, p, e) of
                (Some us, Some pt, Some ef) \<Rightarrow>
                  Inr \<lparr> urls = us, proxyTier = pt, extractFeatures = ef \<rparr>
              | _ \<Rightarrow>
                  Inl (ValidationError
                        (failed_field ''urls'' u @ failed_field ''proxyTier'' p @
                         failed_field ''extractFeatures'' e)))
      | _ \<Rightarrow> Inl (ValidationError []))"

definition ComparePricingInput :: "(string \<Rightarrow> bool) \<Rightarrow> json option \<Rightarrow> error + compare_input" where
  "ComparePricingInput is_url args =
     (case args of
        Some (JObj kvs) \<Rightarrow>
          (let u = parse_url_array is_url (map_of kvs ''urls'');
               t = parse_number_optional (map_of kvs ''teamSize'')
           in case (u, t) of
                (Some us, Some ts) \<Rightarrow> Inr \<lparr> compare_urls = us, teamSize = ts \<rparr>
              | _ \<Rightarrow>
                  Inl (ValidationError (failed_field ''urls'' u @ failed_field ''teamSize'' t)))
      | _ \<Rightarrow> Inl (ValidationError []))"

definition DiscoverPricingInput :: "(string \<Rightarrow> bool) \<Rightarrow> json option \<Rightarrow> error + discover_input" where
  "DiscoverPricingInput is_url args =
     (case args of
        Some (JObj kvs) \<Rightarrow>
          (let u = parse_url is_url (map_of kvs ''url'')
           in case u of
                Some s \<Rightarrow> Inr \<lparr> page_url = s \<rparr>
              | None \<Rightarrow> Inl (ValidationError (failed_field ''url'' u)))
      | _ \<Rightarrow> Inl (ValidationError []))"

section \<open>The tool handlers\<close>

text \<open>
  The input of one run of the remote actor: the object literal passed to
  \<^verbatim>\<open>apifyClient.actor(ACTOR_ID).call\<close>.  A key the literal does not set is \<open>None\<close>.
  The keys \<^verbatim>\<open>proxyTier\<close> and \<^verbatim>\<open>extractFeatures\<close> carry the prefix \<open>run_\<close> here.
\<close>

record actor_input =
  startUrls :: "string list"
  run_proxyTier :: "proxy_tier option"
  run_extractFeatures :: "bool option"
  normalizePricing :: "bool option"
  maxRequestsPerCrawl :: "nat option"
  discoverPricingPage :: "bool option"

text \<open>
  What the remote service answers to a run: the run fails, the fetch of its dataset
  fails, or the dataset's records come back.  The service is the parameter \<open>actor\<close>
  of the handlers.  \<open>Items items\<close> is a dataset of well-shaped records.
\<close>

datatype outcome =
    RunFailed string
  | ListItemsFailed string
  | RawItems "raw_record list"

definition Items :: "item list \<Rightarrow> outcome" where
  "Items items = RawItems (map raw_of_item items)"

text \<open>
  The text of a tool result.  \<open>ErrorText e\<close> is \<^verbatim>\<open>`Error: ${error.message}`\<close> and
  \<open>UnknownTool n\<close> is \<^verbatim>\<open>`Unknown tool: ${name}`\<close>; both come with \<^verbatim>\<open>isError: true\<close>.
\<close>

datatype tool_output =
    ItemsText "raw_record list"
  | ComparisonText comparison_result
  | PlainText string
  | ErrorText error
  | UnknownTool string

fun isError :: "tool_output \<Rightarrow> bool" where
  "isError (ErrorText e) = True"
| "isError (UnknownTool n) = True"
| "isError _ = False"

text \<open>
  A handler returns the runs it asked the remote service for, in order, and the text of
  its result.  An exception of the source (a failed validation, a failed run, a
  \<^verbatim>\<open>TypeError\<close> of the aggregation) leaves the \<^verbatim>\<open>try\<close> block at once, and the \<^verbatim>\<open>catch\<close>
  makes it the error result of the call.
\<close>

definition extract_saas_pricing ::
  "(string \<Rightarrow> bool) \<Rightarrow> (actor_input \<Rightarrow> outcome) \<Rightarrow> json option \<Rightarrow> actor_input list \<times> tool_output" where
  "extract_saas_pricing is_url actor args =
     (case ExtractPricingInput is_url args of
        Inl e \<Rightarrow> ([], ErrorText e)
      | Inr input \<Rightarrow>
          (let run = \<lparr> startUrls = urls input,
                       run_proxyTier = Some (proxyTier input),
                       run_extractFeatures = Some (extractFeatures input),
                       normalizePricing = Some True,
                       maxRequestsPerCrawl = Some (length (urls input) + 5),
                       discoverPricingPage = None \<rparr>
           in ([run],
               case actor run of
                 RunFailed m \<Rightarrow> ErrorText (ExtractionError m)
               | ListItemsFailed m \<Rightarrow> ErrorText (ExtractionError m)
               | RawItems raws \<Rightarrow> ItemsText raws)))"

definition compare_saas_pricing ::
  "(string \<Rightarrow> bool) \<Rightarrow> (actor_input \<Rightarrow> outcome) \<Rightarrow> json option \<Rightarrow> actor_input list \<times> tool_output" where
  "compare_saas_pricing is_url actor args =
     (case ComparePricingInput is_url args of
        Inl e \<Rightarrow> ([], ErrorText e)
      | Inr input \<Rightarrow>
          (let run = \<lparr> startUrls = compare_urls input,
                       run_proxyTier = Some Datacenter,
                       run_extractFeatures = Some True,
                       normalizePricing = Some True,
                       maxRequestsPerCrawl = None,
                       discoverPricingPage = None \<rparr>
           in ([run],
               case actor run of
                 RunFailed m \<Rightarrow> ErrorText (ExtractionError m)
               | ListItemsFailed m \<Rightarrow> ErrorText (ExtractionError m)
               | RawItems raws \<Rightarrow>
                   (case aggregate_raw raws (teamSize input) of
                      Inl e \<Rightarrow> ErrorText e
                    | Inr hc \<Rightarrow> ComparisonText (serialize hc)))))"

text \<open>
  \<^verbatim>\<open>result?.url ? `Found pricing page: ${result.url}`
               : `Could not find pricing page for ${input.url}`\<close> with
  \<^verbatim>\<open>result = items[0]\<close>, on well-shaped records.
\<close>

definition discover_text :: "string \<Rightarrow> item list \<Rightarrow> string" where
  "discover_text requested items =
     (let result = index0 items in
      case Option.bind result url of
        None \<Rightarrow> ''Could not find pricing page for '' @ requested
      | Some u \<Rightarrow>
          if truthy_string (Some u) then ''Found pricing page: '' @ u
          else ''Could not find pricing page for '' @ requested)"

text \<open>
  The same on raw records: \<^verbatim>\<open>result?.url\<close> is \<^verbatim>\<open>undefined\<close> when the first record is
  \<^verbatim>\<open>null\<close>, so nothing is thrown here.
\<close>

fun raw_url :: "raw_record \<Rightarrow> string option" where
  "raw_url RecordNull = None"
| "raw_url (RecordObject n u ts) = u"

definition discover_raw :: "string \<Rightarrow> raw_record list \<Rightarrow> string" where
  "discover_raw requested raws =
     (let result = index0 raws in
      case Option.bind result raw_url of
        None \<Rightarrow> ''Could not find pricing page for '' @ requested
      | Some u \<Rightarrow>
          if truthy_string (Some u) then ''Found pricing page: '' @ u
          else ''Could not find pricing page for '' @ requested)"

definition discover_pricing_page ::
  "(string \<Rightarrow> bool) \<Rightarrow> (actor_input \<Rightarrow> outcome) \<Rightarrow> json option \<Rightarrow> actor_input list \<times> tool_output" where
  "discover_pricing_page is_url actor args =
     (case DiscoverPricingInput is_url args of
        Inl e \<Rightarrow> ([], ErrorText e)
      | Inr input \<Rightarrow>
          (let run = \<lparr> startUrls = [page_url input],
                       run_proxyTier = None,
                       run_extractFeatures = None,
                       normalizePricing = None,
                       maxRequestsPerCrawl = Some 5,
                       discoverPricingPage = Some True \<rparr>
           in ([run],
               case actor run of
                 RunFailed m \<Rightarrow> ErrorText (ExtractionError m)
               | ListItemsFailed m \<Rightarrow> ErrorText (ExtractionError m)
               | RawItems raws \<Rightarrow> PlainText (discover_raw (page_url input) raws))))"

text \<open>The \<^verbatim>\<open>switch (name)\<close> of the request handler; \<open>tool\<close> is the requested name.\<close>

definition call_tool ::
  "(string \<Rightarrow> bool) \<Rightarrow> (actor_input \<Rightarrow> outcome) \<Rightarrow> string \<Rightarrow> json option \<Rightarrow> actor_input list \<times> tool_output" where
  "call_tool is_url actor tool args =
     (if tool = ''extract_saas_pricing'' then extract_saas_pricing is_url actor args
      else if tool = ''compare_saas_pricing'' then compare_saas_pricing is_url actor args
      else if tool = ''discover_pricing_page'' then discover_pricing_page is_url actor args
      else ([], UnknownTool tool))"

section \<open>Auxiliary notions\<close>

text \<open>
  The key the two comparators of the summary order by, and the references that pass
  \<^verbatim>\<open>filter(p => p.lowestPaidPrice)\<close> on a store whose products are in input order.
\<close>

definition price_key :: "product list \<Rightarrow> ref \<Rightarrow> number" where
  "price_key h r = cmp_result (to_number (lowestPaidPrice (h ! r)))"

definition paid_refs :: "product list \<Rightarrow> ref list" where
  "paid_refs h = filter (\<lambda>p. truthy_number (lowestPaidPrice (h ! p))) [0 ..< length h]"

section \<open>Example data\<close>

text \<open>
  Records in the style of the scenarios of the specification: a free tier, flat and
  per-seat paid tiers, a contact-sales tier with neither pricing object nor price.
\<close>

definition free_tier :: tier where
  "free_tier =
     \<lparr> name = ''Free'',
       pricing = Some \<lparr> pricing_type = Some ''free'', perUnit = None \<rparr>,
       normalizedMonthlyPrice = Some 0,
       features = None \<rparr>"

definition flat_tier :: "string \<Rightarrow> number \<Rightarrow> tier" where
  "flat_tier n v =
     \<lparr> name = n,
       pricing = Some \<lparr> pricing_type = Some ''paid'', perUnit = Some ''flat'' \<rparr>,
       normalizedMonthlyPrice = Some v,
       features = None \<rparr>"

definition seat_tier :: "string \<Rightarrow> number \<Rightarrow> tier" where
  "seat_tier n v =
     \<lparr> name = n,
       pricing = Some \<lparr> pricing_type = Some ''paid'', perUnit = Some ''user'' \<rparr>,
       normalizedMonthlyPrice = Some v,
       features = None \<rparr>"

definition contact_tier :: tier where
  "contact_tier =
     \<lparr> name = ''Enterprise'',
       pricing = None,
       normalizedMonthlyPrice = None,
       features = None \<rparr>"

definition record_of :: "string \<Rightarrow> tier list option \<Rightarrow> item" where
  "record_of n ts =
     \<lparr> productName = Some n, url = Some (''https://'' @ n @ ''.com/pricing''), tiers = ts \<rparr>"

text \<open>
  Products A (lowest paid price 10), B (5), C (no paid tier), D (10 again), E (5 again)
  and F (no \<^verbatim>\<open>tiers\<close> at all).
\<close>

definition example_items :: "item list" where
  "example_items =
     [ record_of ''A'' (Some [free_tier, seat_tier ''Team'' 12, flat_tier ''Pro'' 10]),
       record_of ''B'' (Some [seat_tier ''Pro'' 8, flat_tier ''Solo'' 5, contact_tier]),
       record_of ''C'' (Some [free_tier, contact_tier]),
       record_of ''D'' (Some [flat_tier ''Pro'' 10]),
       record_of ''E'' (Some [flat_tier ''Plus'' 5, flat_tier ''Max'' 50]),
       record_of ''F'' None ]"

text \<open>A stand-in for the library's URL test, and a remote service that answers every run
  with one bare record per seed URL.\<close>

definition example_is_url :: "string \<Rightarrow> bool" where
  "example_is_url s = (take 7 s = ''http://'' \<or> take 8 s = ''https://'')"

definition example_actor :: "actor_input \<Rightarrow> outcome" where
  "example_actor run =
     Items (map (\<lambda>u. \<lparr> productName = None, url = Some u, tiers = None \<rparr>) (startUrls run))"

text \<open>A remote service whose dataset holds the example records, whatever the run.\<close>

definition example_pricing_actor :: "actor_input \<Rightarrow> outcome" where
  "example_pricing_actor run = Items example_items"

text \<open>A remote service that answers a discovery run with two records.\<close>

definition example_discovery_actor :: "actor_input \<Rightarrow> outcome" where
  "example_discovery_actor run =
     Items [ \<lparr> productName = None, url = Some ''https://x.com/pricing'', tiers = None \<rparr>,
             \<lparr> productName = None, url = Some ''https://x.com/plans'', tiers = None \<rparr> ]"

text \<open>
  A remote service whose dataset holds a well-shaped record, then one with a null entry
  among its tiers.
\<close>

definition example_malformed_actor :: "actor_input \<Rightarrow> outcome" where
  "example_malformed_actor run =
     RawItems [ raw_of_item (record_of ''B'' (Some [seat_tier ''Pro'' 8])),
                RecordObject (Some ''G'') None (TiersArray [TierObject free_tier, TierNull]) ]"

text \<open>A remote service whose runs fail.\<close>

definition example_failing_actor :: "actor_input \<Rightarrow> outcome" where
  "example_failing_actor run = RunFailed ''run timed out''"

section \<open>Sorting\<close>

text \<open>
  On a list where the comparator agrees with a key, \<open>js_sort\<close> is the stable sort by
  that key; its first element is then the first element of the input with the least key.
\<close>

lemma sort_insert_insort_key:
  "\<forall>y\<in>set ys. (cmp_result (cmp x y) \<le> 0) = (k x \<le> k y)
   \<Longrightarrow> sort_insert cmp x ys = insort_key k x ys"
  by (induction ys) auto

lemma js_sort_Nil: "js_sort cmp [] = []"
  by (simp add: js_sort_def)

lemma js_sort_Cons: "js_sort cmp (x # xs) = sort_insert cmp x (js_sort cmp xs)"
  by (simp add: js_sort_def)

lemma js_sort_sort_key:
  "\<forall>x\<in>set xs. \<forall>y\<in>set xs. (cmp_result (cmp x y) \<le> 0) = (k x \<le> k y)
   \<Longrightarrow> js_sort cmp xs = sort_key k xs"
proof (induction xs)
  case Nil
  show ?case by (simp add: js_sort_Nil)
next
  case (Cons x xs)
  have rest: "js_sort cmp xs = sort_key k xs"
    using Cons by simp
  have "\<forall>y\<in>set (sort_key k xs). (cmp_result (cmp x y) \<le> 0) = (k x \<le> k y)"
    using Cons.prems by simp
  then have "sort_insert cmp x (sort_key k xs) = insort_key k x (sort_key k xs)"
    by (rule sort_insert_insort_key)
  then show ?case
    by (simp add: js_sort_Cons rest)
qed

lemma index0_filter: "index0 (filter P xs) = find P xs"
  by (induction xs) auto

lemma find_SomeD: "find P xs = Some a \<Longrightarrow> a \<in> set xs \<and> P a"
  by (induction xs) (auto split: if_splits)

lemma find_filter: "find Q (filter P xs) = find (\<lambda>x. P x \<and> Q x) xs"
  by (induction xs) auto

lemma find_upt_Some:
  "find R [0 ..< n] = Some i \<Longrightarrow> i < n \<and> R i \<and> (\<forall>j<n. R j \<longrightarrow> i \<le> j)"
  by (auto simp: find_Some_iff) (metis not_le_imp_less)

lemma find_key_exists:
  assumes "m \<in> k ` set xs"
  shows "\<exists>i. find (\<lambda>r. k r = m) xs = Some i"
  using assms by (cases "find (\<lambda>r. k r = m) xs") (auto simp: find_None_iff)

lemma index0_sort_key:
  fixes k :: "'a \<Rightarrow> 'b::linorder"
  assumes "xs \<noteq> []"
  shows "index0 (sort_key k xs) = find (\<lambda>y. k y = Min (k ` set xs)) xs"
proof -
  obtain a s where s: "sort_key k xs = a # s"
    using assms by (cases "sort_key k xs") (auto dest: arg_cong[where f=length])
  have srt: "sorted (map k (a # s))"
    using sorted_sort_key[of k xs] s by simp
  have sets: "set (a # s) = set xs"
    using set_sort[of k xs] s by simp
  have "a \<in> set xs" using sets by auto
  moreover have "\<forall>y\<in>set xs. k a \<le> k y"
    using srt sets by auto
  ultimately have m: "Min (k ` set xs) = k a"
    by (intro Min_eqI) auto
  have "filter (\<lambda>y. k y = k a) xs = filter (\<lambda>y. k y = k a) (a # s)"
    using sort_key_stable[of k "k a" xs] s by simp
  then have "index0 (filter (\<lambda>y. k y = k a) xs) = Some a"
    by simp
  then show ?thesis
    by (simp add: s m index0_filter)
qed

lemma index0_sort_key_desc:
  fixes k :: "'a \<Rightarrow> number"
  assumes "xs \<noteq> []"
  shows "index0 (sort_key (\<lambda>x. - k x) (sort_key k xs)) = find (\<lambda>y. k y = Max (k ` set xs)) xs"
proof -
  let ?s = "sort_key k xs"
  have ne: "?s \<noteq> []" using assms by (auto dest: arg_cong[where f=length])
  have mm: "Min ((\<lambda>x. - k x) ` set xs) = - Max (k ` set xs)"
  proof (rule Min_eqI)
    show "finite ((\<lambda>x. - k x) ` set xs)" by simp
    show "\<And>y. y \<in> (\<lambda>x. - k x) ` set xs \<Longrightarrow> - Max (k ` set xs) \<le> y" by auto
    have "Max (k ` set xs) \<in> k ` set xs" using assms by (intro Max_in) auto
    then show "- Max (k ` set xs) \<in> (\<lambda>x. - k x) ` set xs" by auto
  qed
  have "index0 (sort_key (\<lambda>x. - k x) ?s) = find (\<lambda>y. - k y = Min ((\<lambda>x. - k x) ` set ?s)) ?s"
    using ne by (rule index0_sort_key)
  also have "\<dots> = index0 (filter (\<lambda>y. k y = Max (k ` set xs)) ?s)"
    by (simp add: mm index0_filter)
  also have "\<dots> = index0 (filter (\<lambda>y. k y = Max (k ` set xs)) xs)"
    by (simp add: sort_key_stable)
  finally show ?thesis by (simp add: index0_filter)
qed

section \<open>The lowest paid price of a record\<close>

lemma tier_cmp_key:
  assumes "js_gt_zero (normalizedMonthlyPrice x)" "js_gt_zero (normalizedMonthlyPrice y)"
  shows "(cmp_result (tier_cmp x y) \<le> 0) =
         (cmp_result (to_number (normalizedMonthlyPrice x))
            \<le> cmp_result (to_number (normalizedMonthlyPrice y)))"
  using assms
  by (cases "normalizedMonthlyPrice x"; cases "normalizedMonthlyPrice y") (auto simp: tier_cmp_def)

lemma lowest_paid_None: "lowest_paid None = None"
  by (simp add: lowest_paid_def)

lemma lowest_paid_Some:
  fixes ts :: "tier list"
  defines "P \<equiv> {v. \<exists>t\<in>set ts. normalizedMonthlyPrice t = Some v \<and> 0 < v}"
  shows "lowest_paid (Some ts) = (if P = {} then None else Some (Min P))"
proof -
  let ?k = "\<lambda>t. cmp_result (to_number (normalizedMonthlyPrice t))"
  let ?fs = "filter (\<lambda>t. js_gt_zero (normalizedMonthlyPrice t)) ts"
  have pos: "normalizedMonthlyPrice t = Some (?k t) \<and> 0 < ?k t" if "t \<in> set ?fs" for t
  proof -
    from that have "js_gt_zero (normalizedMonthlyPrice t)" by simp
    then show ?thesis
      by (cases "normalizedMonthlyPrice t") auto
  qed
  have P: "P = ?k ` set ?fs"
  proof (rule set_eqI)
    fix v
    show "v \<in> P \<longleftrightarrow> v \<in> ?k ` set ?fs"
    proof
      assume "v \<in> P"
      then obtain t where "t \<in> set ts" "normalizedMonthlyPrice t = Some v" "0 < v"
        by (auto simp: P_def)
      then have "t \<in> set ?fs" "?k t = v" by auto
      then show "v \<in> ?k ` set ?fs" by blast
    next
      assume "v \<in> ?k ` set ?fs"
      then obtain t where t: "t \<in> set ?fs" "v = ?k t" by blast
      then have "t \<in> set ts" by simp
      with pos[OF t(1)] t(2) show "v \<in> P" by (auto simp: P_def)
    qed
  qed
  have srt: "js_sort tier_cmp ?fs = sort_key ?k ?fs"
    by (rule js_sort_sort_key) (simp add: tier_cmp_key)
  show ?thesis
  proof (cases "?fs = []")
    case True
    then have "P = {}" using P by simp
    then show ?thesis using True by (simp add: lowest_paid_def js_sort_Nil)
  next
    case False
    then have ne: "P \<noteq> {}" using P by (metis image_is_empty set_empty)
    have first: "index0 (sort_key ?k ?fs) = find (\<lambda>y. ?k y = Min (?k ` set ?fs)) ?fs"
      using False by (rule index0_sort_key)
    have sne: "set ?fs \<noteq> {}"
      using False by (metis set_empty)
    have "Min (?k ` set ?fs) \<in> ?k ` set ?fs"
      by (rule Min_in) (use sne in blast)+
    from find_key_exists[OF this] obtain b
      where b: "find (\<lambda>y. ?k y = Min (?k ` set ?fs)) ?fs = Some b" by blast
    from find_SomeD[OF b] have "b \<in> set ?fs" "?k b = Min P" using P by auto
    with pos[of b] have "normalizedMonthlyPrice b = Some (Min P)" by simp
    then show ?thesis using ne b srt first
      by (simp add: lowest_paid_def)
  qed
qed

lemma finite_positive_prices:
  "finite {v. \<exists>t\<in>set ts. normalizedMonthlyPrice t = Some v \<and> P v}"
  by (rule finite_subset[of _ "(\<lambda>t. the (normalizedMonthlyPrice t)) ` set ts"]) force+

lemma lowest_paid_pos:
  assumes "lowest_paid ts = Some v"
  shows "0 < v"
proof (cases ts)
  case None
  with assms show ?thesis by (simp add: lowest_paid_None)
next
  case (Some xs)
  let ?P = "{v. \<exists>t\<in>set xs. normalizedMonthlyPrice t = Some v \<and> 0 < v}"
  from assms Some have ne: "?P \<noteq> {}" and v: "v = Min ?P"
    by (auto simp: lowest_paid_Some split: if_splits)
  have "Min ?P \<in> ?P" using finite_positive_prices ne by (rule Min_in)
  then show ?thesis using v by simp
qed

lemma lowest_paid_ignores_zero:
  "lowest_paid (Some (filter (\<lambda>t. normalizedMonthlyPrice t \<noteq> Some 0) ts)) = lowest_paid (Some ts)"
proof -
  have "{v. \<exists>t\<in>set (filter (\<lambda>t. normalizedMonthlyPrice t \<noteq> Some 0) ts).
             normalizedMonthlyPrice t = Some v \<and> 0 < v}
        = {v. \<exists>t\<in>set ts. normalizedMonthlyPrice t = Some v \<and> 0 < v}"
    by auto
  then show ?thesis
    by (simp only: lowest_paid_Some)
qed

text \<open>
  C2.  The lowest paid price of a record is the minimum of the prices of its tiers that
  are strictly greater than 0, and it is undefined when there is no such tier (in
  particular when the record has no \<^verbatim>\<open>tiers\<close>).  Tiers priced 0 do not contribute: the
  result is the same with them removed, and it is never 0 or less.
\<close>

theorem lowestPaidPrice_min_positive:
  "(let P = {v. \<exists>ts t. tiers it = Some ts \<and> t \<in> set ts \<and>
                        normalizedMonthlyPrice t = Some v \<and> 0 < v}
    in lowestPaidPrice (mk_product it) = (if P = {} then None else Some (Min P)) \<and>
       (\<forall>v. lowestPaidPrice (mk_product it) = Some v \<longrightarrow> 0 < v) \<and>
       (\<forall>ts. tiers it = Some ts \<longrightarrow>
          lowestPaidPrice (mk_product (it \<lparr> tiers := Some (filter (\<lambda>t. normalizedMonthlyPrice t \<noteq> Some 0) ts) \<rparr>))
            = lowestPaidPrice (mk_product it)))"
proof -
  let ?P = "{v. \<exists>ts t. tiers it = Some ts \<and> t \<in> set ts \<and>
                        normalizedMonthlyPrice t = Some v \<and> 0 < v}"
  have main: "lowestPaidPrice (mk_product it) = (if ?P = {} then None else Some (Min ?P))"
  proof (cases "tiers it")
    case None
    then show ?thesis by (simp add: mk_product_def lowest_paid_None)
  next
    case (Some ts)
    then have "?P = {v. \<exists>t\<in>set ts. normalizedMonthlyPrice t = Some v \<and> 0 < v}"
      by auto
    then show ?thesis
      using Some by (simp only: mk_product_def product.simps lowest_paid_Some)
  qed
  have pos: "\<forall>v. lowestPaidPrice (mk_product it) = Some v \<longrightarrow> 0 < v"
    by (simp add: mk_product_def lowest_paid_pos)
  have zero: "\<forall>ts. tiers it = Some ts \<longrightarrow>
          lowestPaidPrice (mk_product (it \<lparr> tiers := Some (filter (\<lambda>t. normalizedMonthlyPrice t \<noteq> Some 0) ts) \<rparr>))
            = lowestPaidPrice (mk_product it)"
    by (simp add: mk_product_def lowest_paid_ignores_zero)
  show ?thesis
    unfolding Let_def using main pos zero by blast
qed

theorem lowestPaidPrice_min_positive_witness:
  "tiers (example_items ! 0) = Some [free_tier, seat_tier ''Team'' 12, flat_tier ''Pro'' 10] \<and>
   lowestPaidPrice (mk_product (example_items ! 0)) = Some 10 \<and>
   lowestPaidPrice (mk_product (example_items ! 2)) = None \<and>
   lowestPaidPrice (mk_product (example_items ! 5)) = None"
proof -
  have e: "tiers (example_items ! 0) = Some [free_tier, seat_tier ''Team'' 12, flat_tier ''Pro'' 10] \<and>
   lowestPaidPrice (mk_product (example_items ! 0)) = Some 10 \<and>
   lowestPaidPrice (mk_product (example_items ! 2)) = None \<and>
   lowestPaidPrice (mk_product (example_items ! 5)) = None"
    by code_simp
  with lowestPaidPrice_min_positive[of "example_items ! 0"] show ?thesis
    by simp
qed

section \<open>The store and the summary\<close>

lemma truthy_lowestPaidPrice:
  "truthy_number (lowestPaidPrice (mk_product it)) = (lowestPaidPrice (mk_product it) \<noteq> None)"
proof (cases "lowestPaidPrice (mk_product it)")
  case None
  then show ?thesis by simp
next
  case (Some v)
  then have "0 < v" by (simp add: mk_product_def lowest_paid_pos)
  with Some show ?thesis by simp
qed

lemma foldl_set_team_cost_length: "length (foldl (set_team_cost n) h rs) = length h"
  by (induction rs arbitrary: h) (simp_all add: set_team_cost_def)

lemma set_team_cost_nth:
  "i < length h \<Longrightarrow>
   set_team_cost n h r ! i =
     (if i = r
      then (h ! i) \<lparr> estimatedTeamCost :=
             map_option (\<lambda>ts. map (team_cost_of n) (filter is_per_user ts)) (p_tiers (h ! i)) \<rparr>
      else h ! i)"
  by (simp add: set_team_cost_def nth_list_update)

lemma foldl_set_team_cost_nth:
  "i < length h \<Longrightarrow>
   foldl (set_team_cost n) h rs ! i =
     (if i \<in> set rs
      then (h ! i) \<lparr> estimatedTeamCost :=
             map_option (\<lambda>ts. map (team_cost_of n) (filter is_per_user ts)) (p_tiers (h ! i)) \<rparr>
      else h ! i)"
proof (induction rs arbitrary: h)
  case Nil
  show ?case by simp
next
  case (Cons r rs)
  let ?h = "set_team_cost n h r"
  have len: "i < length ?h"
    using Cons.prems by (simp add: set_team_cost_def)
  show ?case
  proof (cases "i = r")
    case True
    then show ?thesis
      using Cons.IH[OF len] set_team_cost_nth[OF Cons.prems, of n r] by simp
  next
    case False
    then show ?thesis
      using Cons.IH[OF len] set_team_cost_nth[OF Cons.prems, of n r] by simp
  qed
qed

lemma price_asc_key:
  assumes "truthy_number (lowestPaidPrice (h ! a))" "truthy_number (lowestPaidPrice (h ! b))"
  shows "(cmp_result (price_asc h a b) \<le> 0) = (price_key h a \<le> price_key h b)"
  using assms
  by (cases "lowestPaidPrice (h ! a)"; cases "lowestPaidPrice (h ! b)")
     (auto simp: price_asc_def price_key_def)

lemma price_desc_key:
  assumes "truthy_number (lowestPaidPrice (h ! a))" "truthy_number (lowestPaidPrice (h ! b))"
  shows "(cmp_result (price_desc h a b) \<le> 0) = (- price_key h a \<le> - price_key h b)"
  using assms
  by (cases "lowestPaidPrice (h ! a)"; cases "lowestPaidPrice (h ! b)")
     (auto simp: price_desc_def price_key_def)

lemma sorted1_eq: "js_sort (price_asc h) (paid_refs h) = sort_key (price_key h) (paid_refs h)"
  by (rule js_sort_sort_key) (simp add: paid_refs_def price_asc_key)

lemma sorted2_eq:
  "js_sort (price_desc h) (sort_key (price_key h) (paid_refs h)) =
   sort_key (\<lambda>r. - price_key h r) (sort_key (price_key h) (paid_refs h))"
  by (rule js_sort_sort_key) (simp add: paid_refs_def price_desc_key)

lemma calc_summary_fst: "fst (calc_summary hc) = fst hc"
  by (simp add: calc_summary_def Let_def)

lemma calc_summary_products: "products (snd (calc_summary hc)) = products (snd hc)"
  by (simp add: calc_summary_def Let_def)

lemma build_comparison_simps:
  "fst (build_comparison items) = map mk_product items"
  "products (snd (build_comparison items)) = [0 ..< length items]"
  "summary (snd (build_comparison items)) = \<lparr> cheapest = None, mostExpensive = None, withFreeTier = [] \<rparr>"
  by (simp_all add: build_comparison_def)

lemma summary_cheapest:
  "cheapest (summary (snd (calc_summary (build_comparison items)))) =
     (let h = map mk_product items in
      if paid_refs h = [] then None
      else find (\<lambda>r. price_key h r = Min (price_key h ` set (paid_refs h))) (paid_refs h))"
proof -
  let ?h = "map mk_product items"
  have paid: "filter (\<lambda>p. truthy_number (lowestPaidPrice (?h ! p))) [0 ..< length items] = paid_refs ?h"
    by (simp add: paid_refs_def)
  show ?thesis
  proof (cases "paid_refs ?h = []")
    case True
    then show ?thesis
      by (simp add: calc_summary_def build_comparison_simps paid Let_def)
  next
    case False
    then have "index0 (sort_key (price_key ?h) (paid_refs ?h)) =
               find (\<lambda>r. price_key ?h r = Min (price_key ?h ` set (paid_refs ?h))) (paid_refs ?h)"
      by (rule index0_sort_key)
    then show ?thesis using False
      by (simp add: calc_summary_def build_comparison_simps paid Let_def sorted1_eq)
  qed
qed

lemma summary_mostExpensive:
  "mostExpensive (summary (snd (calc_summary (build_comparison items)))) =
     (let h = map mk_product items in
      if paid_refs h = [] then None
      else find (\<lambda>r. price_key h r = Max (price_key h ` set (paid_refs h))) (paid_refs h))"
proof -
  let ?h = "map mk_product items"
  have paid: "filter (\<lambda>p. truthy_number (lowestPaidPrice (?h ! p))) [0 ..< length items] = paid_refs ?h"
    by (simp add: paid_refs_def)
  show ?thesis
  proof (cases "paid_refs ?h = []")
    case True
    then show ?thesis
      by (simp add: calc_summary_def build_comparison_simps paid Let_def)
  next
    case False
    then have "index0 (sort_key (\<lambda>r. - price_key ?h r) (sort_key (price_key ?h) (paid_refs ?h))) =
               find (\<lambda>r. price_key ?h r = Max (price_key ?h ` set (paid_refs ?h))) (paid_refs ?h)"
      by (rule index0_sort_key_desc)
    then show ?thesis using False
      by (simp add: calc_summary_def build_comparison_simps paid Let_def sorted1_eq sorted2_eq)
  qed
qed

lemma paid_key:
  assumes "i < length items" "lowestPaidPrice (map mk_product items ! i) = Some v"
  shows "i \<in> set (paid_refs (map mk_product items))" "price_key (map mk_product items) i = v"
proof -
  have "lowestPaidPrice (mk_product (items ! i)) \<noteq> None"
    using assms by simp
  then have "truthy_number (lowestPaidPrice (mk_product (items ! i)))"
    by (simp add: truthy_lowestPaidPrice)
  then show "i \<in> set (paid_refs (map mk_product items))"
    using assms(1) by (simp add: paid_refs_def)
  show "price_key (map mk_product items) i = v"
    using assms(2) by (simp add: price_key_def)
qed

lemma paid_refs_D:
  assumes "i \<in> set (paid_refs (map mk_product items))"
  shows "i < length items \<and> lowestPaidPrice (map mk_product items ! i) = Some (price_key (map mk_product items) i)"
proof -
  from assms have i: "i < length items" and t: "truthy_number (lowestPaidPrice (map mk_product items ! i))"
    by (auto simp: paid_refs_def)
  from t show ?thesis using i
    by (cases "lowestPaidPrice (map mk_product items ! i)") (simp_all add: price_key_def)
qed

lemma paid_refs_empty:
  "paid_refs (map mk_product items) = [] \<longleftrightarrow>
   (\<forall>i<length items. lowestPaidPrice (map mk_product items ! i) = None)"
proof
  assume e: "paid_refs (map mk_product items) = []"
  show "\<forall>i<length items. lowestPaidPrice (map mk_product items ! i) = None"
  proof (intro allI impI)
    fix i assume i: "i < length items"
    show "lowestPaidPrice (map mk_product items ! i) = None"
    proof (cases "lowestPaidPrice (map mk_product items ! i)")
      case (Some v)
      from paid_key(1)[OF i Some] e show ?thesis by simp
    qed simp
  qed
next
  assume a: "\<forall>i<length items. lowestPaidPrice (map mk_product items ! i) = None"
  show "paid_refs (map mk_product items) = []"
  proof (rule ccontr)
    assume "paid_refs (map mk_product items) \<noteq> []"
    then obtain i where "i \<in> set (paid_refs (map mk_product items))"
      by (cases "paid_refs (map mk_product items)") auto
    from paid_refs_D[OF this] a show False by (metis option.distinct(1))
  qed
qed

lemma first_with_key:
  assumes f: "find (\<lambda>r. price_key (map mk_product items) r = m) (paid_refs (map mk_product items)) = Some i"
  shows "i < length items \<and> lowestPaidPrice (map mk_product items ! i) = Some m \<and>
         (\<forall>j<length items. lowestPaidPrice (map mk_product items ! j) = Some m \<longrightarrow> i \<le> j)"
proof -
  let ?h = "map mk_product items"
  let ?R = "\<lambda>r. truthy_number (lowestPaidPrice (?h ! r)) \<and> price_key ?h r = m"
  have "find ?R [0 ..< length items] = Some i"
    using f by (simp add: paid_refs_def find_filter)
  from find_upt_Some[OF this]
  have i: "i < length items" and R: "?R i" and least: "\<forall>j<length items. ?R j \<longrightarrow> i \<le> j"
    by blast+
  have "i \<in> set (paid_refs ?h)" using i R by (simp add: paid_refs_def)
  from paid_refs_D[OF this] R have p: "lowestPaidPrice (?h ! i) = Some m" by metis
  have "\<forall>j<length items. lowestPaidPrice (?h ! j) = Some m \<longrightarrow> i \<le> j"
  proof (intro allI impI)
    fix j assume j: "j < length items" and pj: "lowestPaidPrice (?h ! j) = Some m"
    have "truthy_number (lowestPaidPrice (?h ! j))"
      using paid_key(1)[OF j pj] by (auto simp: paid_refs_def)
    moreover have "price_key ?h j = m" using paid_key(2)[OF j pj] .
    ultimately show "i \<le> j" using least j by blast
  qed
  with i p show ?thesis by blast
qed

lemma cheapest_spec:
  assumes ne: "paid_refs (map mk_product items) \<noteq> []"
  shows "\<exists>i v. cheapest (summary (snd (calc_summary (build_comparison items)))) = Some i \<and>
           i < length items \<and> lowestPaidPrice (map mk_product items ! i) = Some v \<and>
           (\<forall>j<length items. \<forall>w. lowestPaidPrice (map mk_product items ! j) = Some w \<longrightarrow>
                v \<le> w \<and> (w = v \<longrightarrow> i \<le> j))"
proof -
  let ?h = "map mk_product items"
  let ?K = "price_key ?h ` set (paid_refs ?h)"
  have fin: "finite ?K" and neK: "?K \<noteq> {}" using ne by auto
  have "Min ?K \<in> ?K" using fin neK by (rule Min_in)
  from find_key_exists[OF this] obtain i
    where f: "find (\<lambda>r. price_key ?h r = Min ?K) (paid_refs ?h) = Some i" by blast
  have c: "cheapest (summary (snd (calc_summary (build_comparison items)))) = Some i"
    using ne f by (simp add: summary_cheapest Let_def)
  note fw = first_with_key[OF f]
  have "\<forall>j<length items. \<forall>w. lowestPaidPrice (?h ! j) = Some w \<longrightarrow> Min ?K \<le> w \<and> (w = Min ?K \<longrightarrow> i \<le> j)"
  proof (intro allI impI)
    fix j w assume j: "j < length items" and pj: "lowestPaidPrice (?h ! j) = Some w"
    have "w \<in> ?K" using paid_key[OF j pj] by force
    then have "Min ?K \<le> w" using fin by simp
    moreover have "w = Min ?K \<longrightarrow> i \<le> j" using fw j pj by blast
    ultimately show "Min ?K \<le> w \<and> (w = Min ?K \<longrightarrow> i \<le> j)" by blast
  qed
  with c fw show ?thesis by blast
qed

lemma mostExpensive_spec:
  assumes ne: "paid_refs (map mk_product items) \<noteq> []"
  shows "\<exists>i v. mostExpensive (summary (snd (calc_summary (build_comparison items)))) = Some i \<and>
           i < length items \<and> lowestPaidPrice (map mk_product items ! i) = Some v \<and>
           (\<forall>j<length items. \<forall>w. lowestPaidPrice (map mk_product items ! j) = Some w \<longrightarrow>
                w \<le> v \<and> (w = v \<longrightarrow> i \<le> j))"
proof -
  let ?h = "map mk_product items"
  let ?K = "price_key ?h ` set (paid_refs ?h)"
  have fin: "finite ?K" and neK: "?K \<noteq> {}" using ne by auto
  have "Max ?K \<in> ?K" using fin neK by (rule Max_in)
  from find_key_exists[OF this] obtain i
    where f: "find (\<lambda>r. price_key ?h r = Max ?K) (paid_refs ?h) = Some i" by blast
  have c: "mostExpensive (summary (snd (calc_summary (build_comparison items)))) = Some i"
    using ne f by (simp add: summary_mostExpensive Let_def)
  note fw = first_with_key[OF f]
  have "\<forall>j<length items. \<forall>w. lowestPaidPrice (?h ! j) = Some w \<longrightarrow> w \<le> Max ?K \<and> (w = Max ?K \<longrightarrow> i \<le> j)"
  proof (intro allI impI)
    fix j w assume j: "j < length items" and pj: "lowestPaidPrice (?h ! j) = Some w"
    have "w \<in> ?K" using paid_key[OF j pj] by force
    then have "w \<le> Max ?K" using fin by simp
    moreover have "w = Max ?K \<longrightarrow> i \<le> j" using fw j pj by blast
    ultimately show "w \<le> Max ?K \<and> (w = Max ?K \<longrightarrow> i \<le> j)" by blast
  qed
  with c fw show ?thesis by blast
qed

lemma aggregate_summary:
  "summary (snd (aggregate items team)) = summary (snd (calc_summary (build_comparison items)))"
  by (simp add: aggregate_def calc_team_cost_def split: option.split)

lemma aggregate_products: "products (snd (aggregate items team)) = [0 ..< length items]"
  by (simp add: aggregate_def calc_team_cost_def calc_summary_products build_comparison_simps
        split: option.split)

lemma aggregate_store:
  "fst (aggregate items team) =
     (case team of
        None \<Rightarrow> map mk_product items
      | Some n \<Rightarrow>
          if n \<noteq> 0
          then foldl (set_team_cost n) (map mk_product items) [0 ..< length items]
          else map mk_product items)"
  by (simp add: aggregate_def calc_team_cost_def calc_summary_products calc_summary_fst
        build_comparison_simps split: option.split)

lemma aggregate_store_length: "length (fst (aggregate items team)) = length items"
  by (simp add: aggregate_store foldl_set_team_cost_length split: option.split)

lemma aggregate_store_nth:
  assumes "i < length items"
  shows "fst (aggregate items team) ! i =
     (case team of
        None \<Rightarrow> mk_product (items ! i)
      | Some n \<Rightarrow>
          if n \<noteq> 0
          then (mk_product (items ! i)) \<lparr> estimatedTeamCost :=
                 map_option (\<lambda>ts. map (team_cost_of n) (filter is_per_user ts))
                   (tiers (items ! i)) \<rparr>
          else mk_product (items ! i))"
  using assms
  by (simp add: aggregate_store foldl_set_team_cost_nth split: option.split)
     (simp add: mk_product_def)

lemma aggregate_store_price:
  assumes "i < length items"
  shows "lowestPaidPrice (fst (aggregate items team) ! i) = lowestPaidPrice (map mk_product items ! i)"
  using assms by (simp add: aggregate_store_nth split: option.split)

text \<open>
  C1.  The references of the products are \<open>0, 1, ...\<close> in input order.  When no product
  has a defined lowest paid price, \<open>cheapest\<close> and \<open>mostExpensive\<close> are both null.
  Otherwise \<open>cheapest\<close> is a product with a defined lowest paid price that no other
  defined one undercuts, \<open>mostExpensive\<close> one that no other defined one exceeds, and each
  is the first product in input order with its price.
\<close>

theorem cheapest_mostExpensive_selection:
  "(let hc = aggregate items team; h = fst hc; s = summary (snd hc); n = length items in
      length h = n \<and> products (snd hc) = [0 ..< n] \<and>
      (\<forall>i<n. lowestPaidPrice (h ! i) = lowest_paid (tiers (items ! i))) \<and>
      (if \<forall>i<n. lowestPaidPrice (h ! i) = None
       then cheapest s = None \<and> mostExpensive s = None
       else (\<exists>i v. cheapest s = Some i \<and> i < n \<and> lowestPaidPrice (h ! i) = Some v \<and>
               (\<forall>j<n. \<forall>w. lowestPaidPrice (h ! j) = Some w \<longrightarrow> v \<le> w \<and> (w = v \<longrightarrow> i \<le> j))) \<and>
            (\<exists>i v. mostExpensive s = Some i \<and> i < n \<and> lowestPaidPrice (h ! i) = Some v \<and>
               (\<forall>j<n. \<forall>w. lowestPaidPrice (h ! j) = Some w \<longrightarrow> w \<le> v \<and> (w = v \<longrightarrow> i \<le> j)))))"
proof -
  let ?base = "map mk_product items"
  let ?h = "fst (aggregate items team)"
  let ?s = "summary (snd (aggregate items team))"
  let ?n = "length items"
  have price: "\<And>i. i < ?n \<Longrightarrow> lowestPaidPrice (?h ! i) = lowestPaidPrice (?base ! i)"
    by (rule aggregate_store_price)
  have lp: "\<forall>i<?n. lowestPaidPrice (?h ! i) = lowest_paid (tiers (items ! i))"
    by (simp add: price) (simp add: mk_product_def)
  have sel: "if \<forall>i<?n. lowestPaidPrice (?h ! i) = None
       then cheapest ?s = None \<and> mostExpensive ?s = None
       else (\<exists>i v. cheapest ?s = Some i \<and> i < ?n \<and> lowestPaidPrice (?h ! i) = Some v \<and>
               (\<forall>j<?n. \<forall>w. lowestPaidPrice (?h ! j) = Some w \<longrightarrow> v \<le> w \<and> (w = v \<longrightarrow> i \<le> j))) \<and>
            (\<exists>i v. mostExpensive ?s = Some i \<and> i < ?n \<and> lowestPaidPrice (?h ! i) = Some v \<and>
               (\<forall>j<?n. \<forall>w. lowestPaidPrice (?h ! j) = Some w \<longrightarrow> w \<le> v \<and> (w = v \<longrightarrow> i \<le> j)))"
  proof (cases "paid_refs ?base = []")
    case True
    then have "\<forall>i<?n. lowestPaidPrice (?base ! i) = None"
      using paid_refs_empty[of items] by blast
    then have none: "\<forall>i<?n. lowestPaidPrice (?h ! i) = None"
      using price by metis
    have "cheapest ?s = None \<and> mostExpensive ?s = None"
      using True by (simp add: aggregate_summary summary_cheapest summary_mostExpensive)
    then show ?thesis
      by (subst if_P[OF none])
  next
    case False
    then have "\<not> (\<forall>i<?n. lowestPaidPrice (?base ! i) = None)"
      using paid_refs_empty[of items] by blast
    then have some: "\<not> (\<forall>i<?n. lowestPaidPrice (?h ! i) = None)"
      using price by metis
    from cheapest_spec[OF False] obtain i v where
      c: "cheapest ?s = Some i" "i < ?n" "lowestPaidPrice (?base ! i) = Some v"
         "\<forall>j<?n. \<forall>w. lowestPaidPrice (?base ! j) = Some w \<longrightarrow> v \<le> w \<and> (w = v \<longrightarrow> i \<le> j)"
      unfolding aggregate_summary by blast
    from mostExpensive_spec[OF False] obtain i' v' where
      m: "mostExpensive ?s = Some i'" "i' < ?n" "lowestPaidPrice (?base ! i') = Some v'"
         "\<forall>j<?n. \<forall>w. lowestPaidPrice (?base ! j) = Some w \<longrightarrow> w \<le> v' \<and> (w = v' \<longrightarrow> i' \<le> j)"
      unfolding aggregate_summary by blast
    have c': "cheapest ?s = Some i \<and> i < ?n \<and> lowestPaidPrice (?h ! i) = Some v \<and>
               (\<forall>j<?n. \<forall>w. lowestPaidPrice (?h ! j) = Some w \<longrightarrow> v \<le> w \<and> (w = v \<longrightarrow> i \<le> j))"
      using c price by metis
    have m': "mostExpensive ?s = Some i' \<and> i' < ?n \<and> lowestPaidPrice (?h ! i') = Some v' \<and>
               (\<forall>j<?n. \<forall>w. lowestPaidPrice (?h ! j) = Some w \<longrightarrow> w \<le> v' \<and> (w = v' \<longrightarrow> i' \<le> j))"
      using m price by metis
    show ?thesis
      by (subst if_not_P[OF some]) (use c' m' in blast)
  qed
  show ?thesis
    unfolding Let_def
    using aggregate_store_length[of items team] aggregate_products[of items team] lp sel
    by blast
qed

theorem cheapest_mostExpensive_selection_witness:
  "map lowestPaidPrice (fst (aggregate example_items None)) =
     [Some 10, Some 5, None, Some 10, Some 5, None] \<and>
   cheapest (summary (snd (aggregate example_items None))) = Some 1 \<and>
   mostExpensive (summary (snd (aggregate example_items None))) = Some 0 \<and>
   summary (snd (aggregate [example_items ! 2, example_items ! 5] None)) =
     \<lparr> cheapest = None, mostExpensive = None, withFreeTier = [Some ''C''] \<rparr>"
proof -
  have e: "map lowestPaidPrice (fst (aggregate example_items None)) =
     [Some 10, Some 5, None, Some 10, Some 5, None] \<and>
   cheapest (summary (snd (aggregate example_items None))) = Some 1 \<and>
   mostExpensive (summary (snd (aggregate example_items None))) = Some 0 \<and>
   summary (snd (aggregate [example_items ! 2, example_items ! 5] None)) =
     \<lparr> cheapest = None, mostExpensive = None, withFreeTier = [Some ''C''] \<rparr>"
    by code_simp
  with cheapest_mostExpensive_selection[of example_items None] show ?thesis
    by simp
qed

section \<open>The products of the result\<close>

lemma serialize_products:
  "r_products (serialize (aggregate items team)) = fst (aggregate items team)"
proof -
  have "map ((!) (fst (aggregate items team))) [0 ..< length (fst (aggregate items team))]
        = fst (aggregate items team)"
    by (rule map_nth)
  then show ?thesis
    by (simp add: serialize_def Let_def aggregate_products aggregate_store_length)
qed

lemma result_product:
  assumes "i < length items"
  shows "r_products (serialize (aggregate items team)) ! i =
     (mk_product (items ! i)) \<lparr> estimatedTeamCost :=
        (case team of
           None \<Rightarrow> None
         | Some n \<Rightarrow>
             if n = 0 then None
             else map_option (\<lambda>ts. map (team_cost_of n) (filter is_per_user ts))
                    (tiers (items ! i))) \<rparr>"
  using assms
  by (simp add: serialize_products aggregate_store_nth split: option.split)
     (simp add: mk_product_def)

lemma is_free_iff:
  "is_free t \<longleftrightarrow> (\<exists>p. pricing t = Some p \<and> pricing_type p = Some ''free'')"
  by (cases "pricing t") (simp_all add: is_free_def)

lemma is_per_user_iff:
  "is_per_user t \<longleftrightarrow> (\<exists>p. pricing t = Some p \<and> perUnit p = Some ''user'')"
  by (cases "pricing t") (simp_all add: is_per_user_def)

text \<open>
  C3, as the code has it.  \<open>hasFreeTier\<close> is true exactly when the record has tiers and
  one of them has a pricing object of type \<open>free\<close>, and false exactly when it has tiers
  and none of them is free.  When the record has no \<^verbatim>\<open>tiers\<close>, \<open>hasFreeTier\<close> is
  \<^verbatim>\<open>undefined\<close>, not \<^verbatim>\<open>false\<close>; it is falsy all the same.
\<close>

theorem hasFreeTier_iff_free_tier:
  "(hasFreeTier (mk_product it) = Some True \<longleftrightarrow>
      (\<exists>ts. tiers it = Some ts \<and>
         (\<exists>t\<in>set ts. \<exists>p. pricing t = Some p \<and> pricing_type p = Some ''free''))) \<and>
   (hasFreeTier (mk_product it) = Some False \<longleftrightarrow>
      (\<exists>ts. tiers it = Some ts \<and>
         \<not> (\<exists>t\<in>set ts. \<exists>p. pricing t = Some p \<and> pricing_type p = Some ''free''))) \<and>
   (hasFreeTier (mk_product it) = None \<longleftrightarrow> tiers it = None) \<and>
   (tiers it = None \<longrightarrow> \<not> truthy_bool (hasFreeTier (mk_product it)))"
  by (cases "tiers it") (auto simp: mk_product_def list_ex_iff is_free_iff)

theorem hasFreeTier_iff_free_tier_witness:
  "hasFreeTier (mk_product (example_items ! 0)) = Some True \<and>
   hasFreeTier (mk_product (example_items ! 1)) = Some False \<and>
   tiers (example_items ! 5) = None \<and>
   hasFreeTier (mk_product (example_items ! 5)) = None"
proof -
  have e: "hasFreeTier (mk_product (example_items ! 0)) = Some True \<and>
   hasFreeTier (mk_product (example_items ! 1)) = Some False \<and>
   tiers (example_items ! 5) = None \<and>
   hasFreeTier (mk_product (example_items ! 5)) = None"
    by code_simp
  with hasFreeTier_iff_free_tier[of "example_items ! 5"] show ?thesis
    by blast
qed

theorem hasFreeTier_absent_tiers_counterexample:
  "tiers (record_of ''F'' None) = None \<and>
   hasFreeTier (mk_product (record_of ''F'' None)) \<noteq> Some False"
  by (simp add: record_of_def mk_product_def)

section \<open>Products of doubles\<close>

text \<open>
  The rounding of the model is the one of the doubles: an integer of magnitude below
  \<open>2 ^ 53\<close> is its own double, \<open>floor_log2\<close> is the binary exponent, and a value in the
  normal range is rounded to a multiple of \<open>2 ^ (e - 52)\<close> nearest to it.
\<close>

lemma round_half_even_of_int: "round_half_even (of_int j) = j"
  by (simp add: round_half_even_def)

lemma floor_log2_of_int: "0 < k \<Longrightarrow> floor_log2 (of_int k) = bitlen k - 1"
  by (simp add: floor_log2_def)

lemma bitlen_small:
  assumes "0 < k" "k < 2 ^ 53"
  shows "1 \<le> bitlen k \<and> bitlen k \<le> 53"
  using assms by (simp add: bitlen_le_iff_power bitlen_ge_iff_power)

lemma round_magnitude_int:
  assumes "0 < k" "k < 2 ^ 53"
  defines "q \<equiv> pow2 (max (floor_log2 (of_int k)) (- 1022) - 52)"
  shows "of_int (round_half_even (of_int k / q)) * q = (of_int k :: number)"
proof -
  from bitlen_small[OF assms(1,2)] have b: "1 \<le> bitlen k" "bitlen k \<le> 53" by simp_all
  define m where "m = nat (53 - bitlen k)"
  from b have e: "max (floor_log2 (of_int k)) (- 1022) - 52 = - int m"
    by (simp add: floor_log2_of_int[OF assms(1)] m_def)
  have q: "q = 1 / 2 ^ m"
    unfolding q_def e by (simp add: pow2_def)
  have "of_int k / q = (of_int (k * 2 ^ m) :: number)"
    by (simp add: q)
  hence "round_half_even (of_int k / q) = k * 2 ^ m"
    by (simp only: round_half_even_of_int)
  thus ?thesis by (simp add: q)
qed

lemma round_double_of_int:
  assumes "\<bar>k\<bar> < 2 ^ 53"
  shows "round_double (of_int k) = Double (of_int k)"
proof (cases "k = 0")
  case True
  then show ?thesis by (simp add: round_double_def)
next
  case False
  define j where "j = \<bar>k\<bar>"
  from False assms have j: "0 < j" "j < 2 ^ 53" by (simp_all add: j_def)
  have a: "\<bar>of_int k :: number\<bar> = of_int j" by (simp add: j_def)
  have "(of_int j :: number) < 2 ^ 53" using j(2) by (metis of_int_less_iff of_int_numeral of_int_power)
  also have "\<dots> \<le> 2 ^ 1024" by (rule power_increasing) simp_all
  finally have small: "\<not> pow2 1024 \<le> (of_int j :: number)" by (simp add: pow2_def)
  have "round_double (of_int k) = Double (if 0 < k then of_int j else - of_int j)"
    using False small
    by (simp add: round_double_def Let_def a round_magnitude_int[OF j] del: of_int_abs)
  also have "\<dots> = Double (of_int k)" using False by (simp add: j_def)
  finally show ?thesis .
qed

lemma pow2_powi: "pow2 k = 2 powi k"
  by (simp add: pow2_def power_int_def inverse_eq_divide power_one_over)

lemma pow2_pos: "0 < pow2 k"
  by (simp add: pow2_powi)

lemma floor_log2_unique:
  assumes "pow2 e \<le> x" "x < pow2 (e + 1)"
  shows "floor_log2 x = e"
proof (cases "1 \<le> x")
  case True
  have e0: "0 \<le> e"
  proof (rule ccontr)
    assume "\<not> 0 \<le> e"
    hence "pow2 (e + 1) \<le> 1" by (simp add: pow2_def field_simps)
    with assms(2) True show False by simp
  qed
  have up: "bitlen \<lfloor>x\<rfloor> \<le> e + 1"
  proof -
    have "of_int \<lfloor>x\<rfloor> \<le> x" by simp
    also from assms(2) e0 have "x < of_int (2 ^ nat (e + 1))" by (simp add: pow2_def)
    finally have "\<lfloor>x\<rfloor> < 2 ^ nat (e + 1)" by (simp only: of_int_less_iff)
    with e0 show ?thesis by (simp add: bitlen_le_iff_power)
  qed
  have lo: "e + 1 \<le> bitlen \<lfloor>x\<rfloor>"
  proof -
    from assms(1) e0 have "of_int (2 ^ nat e) \<le> x" by (simp add: pow2_def)
    hence "2 ^ nat e \<le> \<lfloor>x\<rfloor>" by (simp only: le_floor_iff)
    moreover from e0 have "nat (e + 1) - 1 = nat e" by simp
    ultimately show ?thesis by (simp add: bitlen_ge_iff_power)
  qed
  from True up lo show ?thesis by (simp add: floor_log2_def)
next
  case False
  have x0: "0 < x" using assms(1) pow2_pos[of e] by simp
  have e0: "e < 0"
  proof (rule ccontr)
    assume "\<not> e < 0"
    hence "1 \<le> pow2 e" by (simp add: pow2_def)
    with assms(1) False show False by simp
  qed
  define n where "n = nat (- e)"
  from e0 have n: "0 < n" "e = - int n" by (simp_all add: n_def)
  define c where "c = \<lceil>1 / x\<rceil> - 1"
  have up: "bitlen c \<le> int n"
  proof -
    from assms(1) n have "1 / 2 ^ n \<le> x" by (simp add: pow2_def)
    with x0 have "1 / x \<le> of_int (2 ^ n)" by (simp add: field_simps)
    hence "\<lceil>1 / x\<rceil> \<le> 2 ^ n" by (simp only: ceiling_le_iff)
    thus ?thesis by (simp add: bitlen_le_iff_power c_def)
  qed
  have lo: "int n \<le> bitlen c"
  proof -
    from n have "pow2 (e + 1) = 1 / 2 ^ (n - 1)"
      by (cases n) (simp_all add: pow2_def)
    with assms(2) have "x < 1 / 2 ^ (n - 1)" by simp
    with x0 have "of_int (2 ^ (n - 1)) < 1 / x" by (simp add: field_simps)
    hence "2 ^ (n - 1) < \<lceil>1 / x\<rceil>" by (simp only: less_ceiling_iff)
    thus ?thesis by (simp add: bitlen_ge_iff_power c_def)
  qed
  from False up lo show ?thesis by (simp add: floor_log2_def c_def n(2))
qed

lemma round_half_even_le:
  assumes "y \<le> of_int N"
  shows "round_half_even y \<le> N"
proof -
  from assms have f: "\<lfloor>y\<rfloor> \<le> N" by (simp add: floor_le_iff)
  show ?thesis
  proof (cases "\<lfloor>y\<rfloor> = N")
    case True
    with assms have "y = of_int \<lfloor>y\<rfloor>" using of_int_floor_le[of y] by simp
    hence "y - of_int \<lfloor>y\<rfloor> = 0" by simp
    thus ?thesis using True by (simp add: round_half_even_def Let_def)
  next
    case False
    with f have "\<lfloor>y\<rfloor> + 1 \<le> N" by simp
    thus ?thesis using f by (simp add: round_half_even_def Let_def)
  qed
qed

lemma round_half_even_nearest:
  assumes "of_int m - 1 / 2 < y" "y < of_int m + 1 / 2"
  shows "round_half_even y = m"
proof (cases "of_int m \<le> y")
  case True
  with assms(2) have "\<lfloor>y\<rfloor> = m" by (intro floor_unique) simp_all
  with assms(2) show ?thesis by (simp add: round_half_even_def Let_def)
next
  case False
  with assms(1) have "\<lfloor>y\<rfloor> = m - 1" by (intro floor_unique) simp_all
  with assms(1) show ?thesis by (simp add: round_half_even_def Let_def)
qed

lemma round_half_even_tie:
  assumes "y = of_int m + 1 / 2"
  shows "round_half_even y = (if even m then m else m + 1)"
proof -
  from assms have "\<lfloor>y\<rfloor> = m" by (intro floor_unique) simp_all
  with assms show ?thesis by (simp add: round_half_even_def Let_def)
qed

lemma round_double_normal:
  assumes "pow2 e \<le> x" "x < pow2 (e + 1)" "- 1022 \<le> e" "e < 1023"
    and "m = round_half_even (x / pow2 (e - 52))"
  shows "round_double x = Double (of_int m * pow2 (e - 52))"
proof -
  have x0: "0 < x" using assms(1) pow2_pos[of e] by simp
  hence ax: "\<bar>x\<bar> = x" by simp
  have fl: "floor_log2 x = e" by (rule floor_log2_unique[OF assms(1,2)])
  define q where "q = pow2 (e - 52)"
  have q0: "0 < q" by (simp add: q_def pow2_pos)
  have split: "pow2 (e + 1) = 2 ^ 53 * q"
  proof -
    have "e + 1 = 53 + (e - 52)" by simp
    hence "pow2 (e + 1) = 2 powi (53 + (e - 52))" by (simp only: pow2_powi)
    also have "\<dots> = 2 powi 53 * 2 powi (e - 52)" by (rule power_int_add) simp
    finally show ?thesis by (simp add: q_def pow2_powi)
  qed
  from assms(2) have "x < 2 ^ 53 * q" by (simp only: split)
  with q0 have "x / q \<le> 2 ^ 53" by (simp add: field_simps)
  hence "x / q \<le> of_int (2 ^ 53)" by simp
  hence "m \<le> 2 ^ 53" unfolding assms(5) q_def[symmetric] by (rule round_half_even_le)
  hence "(of_int m :: number) \<le> 2 ^ 53" by (metis of_int_le_iff of_int_numeral of_int_power)
  with q0 have "of_int m * q \<le> pow2 (e + 1)" by (simp add: split)
  also have "pow2 (e + 1) < pow2 1024"
    unfolding pow2_powi using assms(4) by (intro power_int_strict_increasing) simp_all
  finally have small: "\<not> pow2 1024 \<le> of_int m * q" by simp
  from x0 have nz: "x \<noteq> 0" by simp
  have mq: "round_half_even (x / q) = m" using assms(5) by (simp add: q_def)
  have "max e (- 1022) = e" using assms(3) by simp
  thus ?thesis
    using x0 small
    by (simp add: round_double_def Let_def ax fl q_def[symmetric] mq)
qed

text \<open>
  The product is the rounded one: the double of a tenth, times three, is not the double
  of three tenths but the double next to it, \<^verbatim>\<open>0.30000000000000004\<close>.
\<close>

lemma double_of_tenth: "round_double (1 / 10) = Double (3602879701896397 / 2 ^ 55)"
proof -
  have "round_half_even ((1 / 10) / pow2 (- 4 - 52)) = 7205759403792794"
    by (rule round_half_even_nearest) (simp_all add: pow2_def)
  from round_double_normal[of "- 4" "1 / 10", OF _ _ _ _ this[symmetric]]
  show ?thesis by (simp add: pow2_def)
qed

lemma three_tenths:
  "round_double (3602879701896397 / 2 ^ 55 * 3) = Double (5404319552844596 / 2 ^ 54)"
proof -
  have "round_half_even ((3602879701896397 / 2 ^ 55 * 3) / pow2 (- 2 - 52)) = 5404319552844596"
    using round_half_even_tie[of "(3602879701896397 / 2 ^ 55 * 3) / pow2 (- 2 - 52)" 5404319552844595]
    by (simp add: pow2_def)
  from round_double_normal[of "- 2" "3602879701896397 / 2 ^ 55 * 3", OF _ _ _ _ this[symmetric]]
  show ?thesis by (simp add: pow2_def)
qed

lemma double_of_three_tenths: "round_double (3 / 10) = Double (5404319552844595 / 2 ^ 54)"
proof -
  have "round_half_even ((3 / 10) / pow2 (- 2 - 52)) = 5404319552844595"
    by (rule round_half_even_nearest) (simp_all add: pow2_def)
  from round_double_normal[of "- 2" "3 / 10", OF _ _ _ _ this[symmetric]]
  show ?thesis by (simp add: pow2_def)
qed

lemma product_is_rounded:
  "js_times (round_double (1 / 10)) (round_double 3) = Double (5404319552844596 / 2 ^ 54) \<and>
   js_times (round_double (1 / 10)) (round_double 3) \<noteq> round_double (3 / 10)"
proof -
  have "round_double 3 = Double 3"
    using round_double_of_int[of 3] by simp
  hence "js_times (round_double (1 / 10)) (round_double 3) = Double (5404319552844596 / 2 ^ 54)"
    by (simp only: double_of_tenth js_times.simps three_tenths)
  moreover have "Double (5404319552844596 / 2 ^ 54) \<noteq> round_double (3 / 10)"
    by (simp add: double_of_three_tenths)
  ultimately show ?thesis by simp
qed

text \<open>Small integers multiply exactly.\<close>

lemma js_times_of_int:
  assumes "\<bar>a\<bar> < 2 ^ 53" "\<bar>b\<bar> < 2 ^ 53" "\<bar>a * b\<bar> < 2 ^ 53"
  shows "js_times (round_double (of_int a)) (round_double (of_int b)) = Double (of_int (a * b))"
  using round_double_of_int[OF assms(3)]
  by (simp add: round_double_of_int[OF assms(1)] round_double_of_int[OF assms(2)])

section \<open>The estimated team cost\<close>

lemma result_estimatedTeamCost:
  assumes "i < length items"
  shows "estimatedTeamCost (r_products (serialize (aggregate items team)) ! i) =
     (case team of
        None \<Rightarrow> None
      | Some n \<Rightarrow>
          if n = 0 then None
          else map_option (\<lambda>ts. map (team_cost_of n) (filter is_per_user ts))
                 (tiers (items ! i)))"
  using assms by (simp add: result_product split: option.split)

lemma filter_is_per_user:
  "filter is_per_user ts =
   filter (\<lambda>t. \<exists>p. pricing t = Some p \<and> perUnit p = Some ''user'') ts"
  by (rule filter_cong) (simp_all add: is_per_user_iff)

lemma team_cost_of_priced:
  assumes "normalizedMonthlyPrice t = Some v"
  shows "monthly (team_cost_of n t) = js_times (round_double v) (round_double n)"
    and "yearly (team_cost_of n t) = js_times (monthly (team_cost_of n t)) (Double 12)"
  using assms by (simp_all add: team_cost_of_def)

text \<open>
  C4, as the code has it by design.  When a team size other than 0 is supplied, a
  product whose record has tiers gets, in tier order, one entry per tier with
  \<^verbatim>\<open>pricing.perUnit === "user"\<close>, none when no tier is per seat: the entry has the tier's
  name, and for a tier with a numeric price, \<open>monthly\<close> is the product of the price and
  the team size and \<open>yearly\<close> the product of \<open>monthly\<close> and 12, each the product of two
  doubles, rounded as the source rounds it.  A product whose record has no \<^verbatim>\<open>tiers\<close> gets
  no \<open>estimatedTeamCost\<close> at all, rather than an empty sequence.  The team size 0 is
  left to C6.
\<close>

theorem estimatedTeamCost_per_seat:
  assumes "i < length items" "n \<noteq> 0"
  shows "(tiers (items ! i) = None \<longrightarrow>
            estimatedTeamCost (r_products (serialize (aggregate items (Some n))) ! i) = None) \<and>
         (\<forall>ts. tiers (items ! i) = Some ts \<longrightarrow>
            (\<exists>cs. estimatedTeamCost (r_products (serialize (aggregate items (Some n))) ! i) = Some cs \<and>
               map cost_tier cs =
                 map name (filter (\<lambda>t. \<exists>p. pricing t = Some p \<and> perUnit p = Some ''user'') ts) \<and>
               (\<forall>k<length cs. \<forall>v.
                  normalizedMonthlyPrice
                    (filter (\<lambda>t. \<exists>p. pricing t = Some p \<and> perUnit p = Some ''user'') ts ! k) = Some v \<longrightarrow>
                  monthly (cs ! k) = js_times (round_double v) (round_double n) \<and>
                  yearly (cs ! k) = js_times (monthly (cs ! k)) (Double 12))))"
proof -
  let ?seat = "\<lambda>t. \<exists>p. pricing t = Some p \<and> perUnit p = Some ''user''"
  let ?c = "estimatedTeamCost (r_products (serialize (aggregate items (Some n))) ! i)"
  have c: "?c = map_option (\<lambda>ts. map (team_cost_of n) (filter ?seat ts)) (tiers (items ! i))"
    using assms by (simp add: result_estimatedTeamCost filter_is_per_user)
  have none: "tiers (items ! i) = None \<longrightarrow> ?c = None"
    by (simp add: c)
  have some: "\<exists>cs. ?c = Some cs \<and>
               map cost_tier cs = map name (filter ?seat ts) \<and>
               (\<forall>k<length cs. \<forall>v.
                  normalizedMonthlyPrice (filter ?seat ts ! k) = Some v \<longrightarrow>
                  monthly (cs ! k) = js_times (round_double v) (round_double n) \<and>
                  yearly (cs ! k) = js_times (monthly (cs ! k)) (Double 12))"
    if ts: "tiers (items ! i) = Some ts" for ts
  proof (intro exI conjI)
    show "?c = Some (map (team_cost_of n) (filter ?seat ts))"
      by (simp add: c ts)
    show "map cost_tier (map (team_cost_of n) (filter ?seat ts)) = map name (filter ?seat ts)"
      by (simp add: team_cost_of_def)
    show "\<forall>k<length (map (team_cost_of n) (filter ?seat ts)). \<forall>v.
            normalizedMonthlyPrice (filter ?seat ts ! k) = Some v \<longrightarrow>
            monthly (map (team_cost_of n) (filter ?seat ts) ! k) =
              js_times (round_double v) (round_double n) \<and>
            yearly (map (team_cost_of n) (filter ?seat ts) ! k) =
              js_times (monthly (map (team_cost_of n) (filter ?seat ts) ! k)) (Double 12)"
      by (simp add: team_cost_of_priced)
  qed
  show ?thesis
    using none some by blast
qed

theorem estimatedTeamCost_per_seat_witness:
  "(1::nat) < length example_items \<and> (10::number) \<noteq> 0 \<and>
   tiers (example_items ! 1) = Some [seat_tier ''Pro'' 8, flat_tier ''Solo'' 5, contact_tier] \<and>
   estimatedTeamCost (r_products (serialize (aggregate example_items (Some 10))) ! 1) =
     Some [\<lparr> cost_tier = ''Pro'', monthly = Double 80, yearly = Double 960 \<rparr>]"
proof -
  let ?seat = "\<lambda>t. \<exists>p. pricing t = Some p \<and> perUnit p = Some ''user''"
  let ?ts = "[seat_tier ''Pro'' 8, flat_tier ''Solo'' 5, contact_tier]"
  have len: "(1::nat) < length example_items"
    by (simp add: example_items_def)
  have n: "(10::number) \<noteq> 0"
    by simp
  have ts: "tiers (example_items ! 1) = Some ?ts"
    by code_simp
  have "filter is_per_user ?ts = [seat_tier ''Pro'' 8]"
    by code_simp
  hence seat: "filter ?seat ?ts = [seat_tier ''Pro'' 8]"
    by (simp only: filter_is_per_user)
  have price: "normalizedMonthlyPrice (seat_tier ''Pro'' 8) = Some 8"
    and nm: "name (seat_tier ''Pro'' 8) = ''Pro''"
    by (simp_all add: seat_tier_def)
  have m: "js_times (round_double 8) (round_double 10) = Double 80"
    using js_times_of_int[of 8 10] by simp
  have y: "round_double 960 = Double 960"
    using round_double_of_int[of 960] by simp
  from estimatedTeamCost_per_seat[OF len n] ts
  obtain cs where cs:
    "estimatedTeamCost (r_products (serialize (aggregate example_items (Some 10))) ! 1) = Some cs"
    "map cost_tier cs = map name (filter ?seat ?ts)"
    "\<forall>k<length cs. \<forall>v.
        normalizedMonthlyPrice (filter ?seat ?ts ! k) = Some v \<longrightarrow>
        monthly (cs ! k) = js_times (round_double v) (round_double 10) \<and>
        yearly (cs ! k) = js_times (monthly (cs ! k)) (Double 12)"
    by blast
  from cs(2) have "map cost_tier cs = [''Pro'']"
    by (simp only: seat nm list.map)
  then obtain c where c: "cs = [c]" "cost_tier c = ''Pro''"
    by auto
  from cs(3)[unfolded seat] have "monthly c = Double 80 \<and> yearly c = Double 960"
    by (simp add: c price m y)
  with c have "cs = [\<lparr> cost_tier = ''Pro'', monthly = Double 80, yearly = Double 960 \<rparr>]"
    by simp
  with len n ts cs(1) show ?thesis
    by simp
qed

theorem estimatedTeamCost_counterexample:
  "tiers (record_of ''F'' None) = None \<and>
   estimatedTeamCost
     (r_products (serialize (aggregate [record_of ''F'' None] (Some 10))) ! 0)
     = None \<and>
   estimatedTeamCost
     (r_products (serialize (aggregate [record_of ''F'' None] (Some 10))) ! 0)
     \<noteq> Some []"
  by (simp add: result_estimatedTeamCost record_of_def)

section \<open>Well-shaped and malformed records\<close>

text \<open>
  On well-shaped records the aggregation on raw records is the aggregation of the typed
  ones, and it throws on none of them.
\<close>

lemma some_raise_objects: "some_raise P (map TierObject ts) = Inr (list_ex P ts)"
  by (induction ts) simp_all

lemma filter_raise_objects: "filter_raise P (map TierObject ts) = Inr (filter P ts)"
  by (induction ts) simp_all

lemma tier_objects_objects: "tier_objects (map TierObject ts) = ts"
  by (induction ts) simp_all

lemma mk_product_raw_item: "mk_product_raw (raw_of_item it) = Inr (mk_product it)"
  by (cases "tiers it")
     (simp_all add: raw_of_item_def mk_product_def lowest_paid_def some_raise_objects
        filter_raise_objects tier_objects_objects)

lemma map_raise_items:
  "map_raise mk_product_raw (map raw_of_item items) = Inr (map mk_product items)"
  by (induction items) (simp_all add: mk_product_raw_item)

lemma aggregate_raw_items:
  "aggregate_raw (map raw_of_item items) team = Inr (aggregate items team)"
  by (simp add: aggregate_raw_def aggregate_def build_comparison_def map_raise_items)

text \<open>A malformed record makes the map throw, whatever the other records are.\<close>

lemma some_raise_error: "some_raise P rs = Inl e \<Longrightarrow> e = TypeError"
proof (induction rs)
  case Nil
  then show ?case by simp
next
  case (Cons x xs)
  then show ?case by (cases x) (auto split: if_splits)
qed

lemma filter_raise_null: "TierNull \<in> set rs \<Longrightarrow> filter_raise P rs = Inl TypeError"
proof (induction rs)
  case Nil
  then show ?case by simp
next
  case (Cons x xs)
  show ?case
  proof (cases x)
    case TierNull
    then show ?thesis by simp
  next
    case (TierObject t)
    with Cons show ?thesis by simp
  qed
qed

lemma mk_product_raw_malformed:
  assumes "malformed r"
  shows "mk_product_raw r = Inl TypeError"
proof (cases r)
  case RecordNull
  then show ?thesis by simp
next
  case (RecordObject n u ts)
  show ?thesis
  proof (cases ts)
    case TiersAbsent
    with RecordObject assms show ?thesis by simp
  next
    case TiersNotArray
    with RecordObject show ?thesis by simp
  next
    case (TiersArray rs)
    with RecordObject assms have "TierNull \<in> set rs" by simp
    hence f: "filter_raise (\<lambda>t. js_gt_zero (normalizedMonthlyPrice t)) rs = Inl TypeError"
      by (rule filter_raise_null)
    show ?thesis
    proof (cases "some_raise is_free rs")
      case (Inl e)
      with some_raise_error[OF Inl] RecordObject TiersArray show ?thesis by simp
    next
      case (Inr b)
      with f RecordObject TiersArray show ?thesis by simp
    qed
  qed
qed

lemma objects_of_tiers: "TierNull \<notin> set rs \<Longrightarrow> \<exists>ts. rs = map TierObject ts"
proof (induction rs)
  case Nil
  then show ?case by simp
next
  case (Cons x xs)
  then obtain ts where ts: "xs = map TierObject ts" by auto
  from Cons.prems obtain t where "x = TierObject t" by (cases x) auto
  with ts have "x # xs = map TierObject (t # ts)" by simp
  then show ?case by (rule exI)
qed

lemma item_of_raw:
  assumes "\<not> malformed r"
  shows "\<exists>it. r = raw_of_item it"
proof (cases r)
  case RecordNull
  with assms show ?thesis by simp
next
  case (RecordObject n u ts)
  show ?thesis
  proof (cases ts)
    case TiersAbsent
    with RecordObject have "r = raw_of_item \<lparr> productName = n, url = u, tiers = None \<rparr>"
      by (simp add: raw_of_item_def)
    then show ?thesis by blast
  next
    case TiersNotArray
    with RecordObject assms show ?thesis by simp
  next
    case (TiersArray rs)
    with RecordObject assms have "TierNull \<notin> set rs" by simp
    then obtain tl where "rs = map TierObject tl" using objects_of_tiers by blast
    with RecordObject TiersArray
    have "r = raw_of_item \<lparr> productName = n, url = u, tiers = Some tl \<rparr>"
      by (simp add: raw_of_item_def)
    then show ?thesis by blast
  qed
qed

lemma items_of_raws:
  "\<forall>r\<in>set raws. \<not> malformed r \<Longrightarrow> \<exists>items. raws = map raw_of_item items"
proof (induction raws)
  case Nil
  then show ?case by simp
next
  case (Cons r rs)
  then obtain items where i: "rs = map raw_of_item items" by auto
  from Cons.prems obtain it where "r = raw_of_item it" using item_of_raw[of r] by auto
  with i have "r # rs = map raw_of_item (it # items)" by simp
  then show ?case by (rule exI)
qed

lemma map_raise_malformed:
  "\<exists>r\<in>set raws. malformed r \<Longrightarrow> map_raise mk_product_raw raws = Inl TypeError"
proof (induction raws)
  case Nil
  then show ?case by simp
next
  case (Cons r rs)
  show ?case
  proof (cases "malformed r")
    case True
    then show ?thesis by (simp add: mk_product_raw_malformed)
  next
    case False
    then obtain it where "r = raw_of_item it" using item_of_raw by blast
    moreover from False Cons.prems have "\<exists>r\<in>set rs. malformed r" by simp
    ultimately show ?thesis using Cons.IH by (simp add: mk_product_raw_item)
  qed
qed

lemma aggregate_raw_malformed:
  "\<exists>r\<in>set raws. malformed r \<Longrightarrow> aggregate_raw raws team = Inl TypeError"
  by (simp add: aggregate_raw_def map_raise_malformed)

section \<open>Validation and the handlers\<close>

lemma parse_url_array_strings:
  "\<forall>u\<in>set us. is_url u \<Longrightarrow> parse_url_array is_url (Some (JArr (map JStr us))) = Some us"
  by (induction us) simp_all

lemma parse_url_array_empty: "parse_url_array is_url (Some (JArr [])) = Some []"
  by simp

lemma failed_field_Some: "failed_field k (Some v) = []"
  by (simp add: failed_field_def)

lemma ExtractPricingInput_object:
  "ExtractPricingInput is_url (Some (JObj kvs)) =
     (case (parse_url_array is_url (map_of kvs ''urls''),
            parse_proxy_tier (map_of kvs ''proxyTier''),
            parse_boolean_default_true (map_of kvs ''extractFeatures'')) of
        (Some us, Some pt, Some ef) \<Rightarrow> Inr \<lparr> urls = us, proxyTier = pt, extractFeatures = ef \<rparr>
      | (u, p, e) \<Rightarrow>
          Inl (ValidationError
                (failed_field ''urls'' u @ failed_field ''proxyTier'' p @
                 failed_field ''extractFeatures'' e)))"
  by (simp add: ExtractPricingInput_def Let_def split: option.split)

lemma ComparePricingInput_object:
  "ComparePricingInput is_url (Some (JObj kvs)) =
     (case (parse_url_array is_url (map_of kvs ''urls''),
            parse_number_optional (map_of kvs ''teamSize'')) of
        (Some us, Some ts) \<Rightarrow> Inr \<lparr> compare_urls = us, teamSize = ts \<rparr>
      | (u, t) \<Rightarrow> Inl (ValidationError (failed_field ''urls'' u @ failed_field ''teamSize'' t)))"
  by (simp add: ComparePricingInput_def Let_def split: option.split)

lemma extract_saas_pricing_valid:
  assumes "ExtractPricingInput is_url args = Inr input"
  shows "fst (extract_saas_pricing is_url actor args) =
           [\<lparr> startUrls = urls input,
              run_proxyTier = Some (proxyTier input),
              run_extractFeatures = Some (extractFeatures input),
              normalizePricing = Some True,
              maxRequestsPerCrawl = Some (length (urls input) + 5),
              discoverPricingPage = None \<rparr>]"
  using assms by (simp add: extract_saas_pricing_def Let_def)

lemma compare_saas_pricing_valid:
  assumes "ComparePricingInput is_url args = Inr input"
  shows "fst (compare_saas_pricing is_url actor args) =
           [\<lparr> startUrls = compare_urls input,
              run_proxyTier = Some Datacenter,
              run_extractFeatures = Some True,
              normalizePricing = Some True,
              maxRequestsPerCrawl = None,
              discoverPricingPage = None \<rparr>]"
  using assms by (simp add: compare_saas_pricing_def Let_def)

lemma compare_saas_pricing_items:
  assumes "ComparePricingInput is_url args = Inr input"
      and "actor \<lparr> startUrls = compare_urls input,
                   run_proxyTier = Some Datacenter,
                   run_extractFeatures = Some True,
                   normalizePricing = Some True,
                   maxRequestsPerCrawl = None,
                   discoverPricingPage = None \<rparr> = Items items"
  shows "snd (compare_saas_pricing is_url actor args) =
           ComparisonText (serialize (aggregate items (teamSize input)))"
  using assms by (simp add: compare_saas_pricing_def Let_def Items_def aggregate_raw_items)

lemma compare_saas_pricing_raw:
  assumes "ComparePricingInput is_url args = Inr input"
      and "actor \<lparr> startUrls = compare_urls input,
                   run_proxyTier = Some Datacenter,
                   run_extractFeatures = Some True,
                   normalizePricing = Some True,
                   maxRequestsPerCrawl = None,
                   discoverPricingPage = None \<rparr> = RawItems raws"
  shows "snd (compare_saas_pricing is_url actor args) =
           (case aggregate_raw raws (teamSize input) of
              Inl e \<Rightarrow> ErrorText e
            | Inr hc \<Rightarrow> ComparisonText (serialize hc))"
  using assms by (simp add: compare_saas_pricing_def Let_def)

text \<open>
  C5, as the code has it.  Neither schema asks for a non-empty array.  A call whose
  \<^verbatim>\<open>urls\<close> is the empty list is never rejected for its \<^verbatim>\<open>urls\<close>; when its other arguments
  are absent or valid it passes validation, and the handler issues exactly one run,
  with no seed URL (and, for the extraction, a crawl budget of 5).
\<close>

theorem empty_urls_accepted:
  assumes "map_of kvs ''urls'' = Some (JArr [])"
  shows "(\<forall>fs. ExtractPricingInput is_url (Some (JObj kvs)) = Inl (ValidationError fs)
               \<longrightarrow> ''urls'' \<notin> set fs) \<and>
         (\<forall>fs. ComparePricingInput is_url (Some (JObj kvs)) = Inl (ValidationError fs)
               \<longrightarrow> ''urls'' \<notin> set fs) \<and>
         (\<forall>pt ef. parse_proxy_tier (map_of kvs ''proxyTier'') = Some pt \<and>
                  parse_boolean_default_true (map_of kvs ''extractFeatures'') = Some ef \<longrightarrow>
            ExtractPricingInput is_url (Some (JObj kvs)) =
              Inr \<lparr> urls = [], proxyTier = pt, extractFeatures = ef \<rparr> \<and>
            fst (call_tool is_url actor ''extract_saas_pricing'' (Some (JObj kvs))) =
              [\<lparr> startUrls = [],
                 run_proxyTier = Some pt,
                 run_extractFeatures = Some ef,
                 normalizePricing = Some True,
                 maxRequestsPerCrawl = Some 5,
                 discoverPricingPage = None \<rparr>]) \<and>
         (\<forall>t. parse_number_optional (map_of kvs ''teamSize'') = Some t \<longrightarrow>
            ComparePricingInput is_url (Some (JObj kvs)) =
              Inr \<lparr> compare_urls = [], teamSize = t \<rparr> \<and>
            fst (call_tool is_url actor ''compare_saas_pricing'' (Some (JObj kvs))) =
              [\<lparr> startUrls = [],
                 run_proxyTier = Some Datacenter,
                 run_extractFeatures = Some True,
                 normalizePricing = Some True,
                 maxRequestsPerCrawl = None,
                 discoverPricingPage = None \<rparr>])"
proof -
  have u: "parse_url_array is_url (map_of kvs ''urls'') = Some []"
    using assms by simp
  have e1: "\<forall>fs. ExtractPricingInput is_url (Some (JObj kvs)) = Inl (ValidationError fs)
               \<longrightarrow> ''urls'' \<notin> set fs"
    by (auto simp: ExtractPricingInput_object u failed_field_def split: option.splits)
  have c1: "\<forall>fs. ComparePricingInput is_url (Some (JObj kvs)) = Inl (ValidationError fs)
               \<longrightarrow> ''urls'' \<notin> set fs"
    by (auto simp: ComparePricingInput_object u failed_field_def split: option.splits)
  have e2: "ExtractPricingInput is_url (Some (JObj kvs)) =
              Inr \<lparr> urls = [], proxyTier = pt, extractFeatures = ef \<rparr> \<and>
            fst (call_tool is_url actor ''extract_saas_pricing'' (Some (JObj kvs))) =
              [\<lparr> startUrls = [],
                 run_proxyTier = Some pt,
                 run_extractFeatures = Some ef,
                 normalizePricing = Some True,
                 maxRequestsPerCrawl = Some 5,
                 discoverPricingPage = None \<rparr>]"
    if "parse_proxy_tier (map_of kvs ''proxyTier'') = Some pt \<and>
        parse_boolean_default_true (map_of kvs ''extractFeatures'') = Some ef" for pt ef
  proof -
    have p: "ExtractPricingInput is_url (Some (JObj kvs)) =
              Inr \<lparr> urls = [], proxyTier = pt, extractFeatures = ef \<rparr>"
      using that by (simp add: ExtractPricingInput_object u)
    from extract_saas_pricing_valid[OF p, of actor] p show ?thesis
      by (simp add: call_tool_def)
  qed
  have c2: "ComparePricingInput is_url (Some (JObj kvs)) =
              Inr \<lparr> compare_urls = [], teamSize = t \<rparr> \<and>
            fst (call_tool is_url actor ''compare_saas_pricing'' (Some (JObj kvs))) =
              [\<lparr> startUrls = [],
                 run_proxyTier = Some Datacenter,
                 run_extractFeatures = Some True,
                 normalizePricing = Some True,
                 maxRequestsPerCrawl = None,
                 discoverPricingPage = None \<rparr>]"
    if "parse_number_optional (map_of kvs ''teamSize'') = Some t" for t
  proof -
    have p: "ComparePricingInput is_url (Some (JObj kvs)) =
              Inr \<lparr> compare_urls = [], teamSize = t \<rparr>"
      using that by (simp add: ComparePricingInput_object u)
    from compare_saas_pricing_valid[OF p, of actor] p show ?thesis
      by (simp add: call_tool_def)
  qed
  show ?thesis
    using e1 c1 e2 c2 by blast
qed

theorem empty_urls_accepted_witness:
  "map_of [(''urls'', JArr [])] ''urls'' = Some (JArr []) \<and>
   call_tool example_is_url example_actor ''extract_saas_pricing''
       (Some (JObj [(''urls'', JArr [])])) =
     ([\<lparr> startUrls = [],
         run_proxyTier = Some Datacenter,
         run_extractFeatures = Some True,
         normalizePricing = Some True,
         maxRequestsPerCrawl = Some 5,
         discoverPricingPage = None \<rparr>],
      ItemsText [])"
proof -
  have h: "map_of [(''urls'', JArr [])] ''urls'' = Some (JArr [])"
    by simp
  have e: "call_tool example_is_url example_actor ''extract_saas_pricing''
       (Some (JObj [(''urls'', JArr [])])) =
     ([\<lparr> startUrls = [],
         run_proxyTier = Some Datacenter,
         run_extractFeatures = Some True,
         normalizePricing = Some True,
         maxRequestsPerCrawl = Some 5,
         discoverPricingPage = None \<rparr>],
      ItemsText [])"
    by code_simp
  from empty_urls_accepted[OF h, of example_is_url example_actor] h e show ?thesis
    by blast
qed

theorem empty_urls_counterexample:
  "ExtractPricingInput example_is_url (Some (JObj [(''urls'', JArr [])])) =
     Inr \<lparr> urls = [], proxyTier = Datacenter, extractFeatures = True \<rparr> \<and>
   ComparePricingInput example_is_url (Some (JObj [(''urls'', JArr [])])) =
     Inr \<lparr> compare_urls = [], teamSize = None \<rparr> \<and>
   length (fst (call_tool example_is_url example_actor ''extract_saas_pricing''
                  (Some (JObj [(''urls'', JArr [])])))) = 1 \<and>
   length (fst (call_tool example_is_url example_actor ''compare_saas_pricing''
                  (Some (JObj [(''urls'', JArr [])])))) = 1 \<and>
   \<not> isError (snd (call_tool example_is_url example_actor ''extract_saas_pricing''
                     (Some (JObj [(''urls'', JArr [])])))) \<and>
   \<not> isError (snd (call_tool example_is_url example_actor ''compare_saas_pricing''
                     (Some (JObj [(''urls'', JArr [])]))))"
  by code_simp

text \<open>
  C7, at a call with one URL.  The run that \<^verbatim>\<open>compare_saas_pricing\<close> issues has the seed
  object, the proxy tier \<open>datacenter\<close>, feature extraction and normalisation on, but no
  \<^verbatim>\<open>maxRequestsPerCrawl\<close>; the run \<^verbatim>\<open>extract_saas_pricing\<close> issues for the same URL has
  the cap \<open>1 + 5\<close>.
\<close>

theorem compare_run_has_no_cap:
  "fst (call_tool example_is_url example_actor ''compare_saas_pricing''
          (Some (JObj [(''urls'', JArr [JStr ''https://a.com/pricing''])]))) =
     [\<lparr> startUrls = [''https://a.com/pricing''],
        run_proxyTier = Some Datacenter,
        run_extractFeatures = Some True,
        normalizePricing = Some True,
        maxRequestsPerCrawl = None,
        discoverPricingPage = None \<rparr>] \<and>
   fst (call_tool example_is_url example_actor ''extract_saas_pricing''
          (Some (JObj [(''urls'', JArr [JStr ''https://a.com/pricing''])]))) =
     [\<lparr> startUrls = [''https://a.com/pricing''],
        run_proxyTier = Some Datacenter,
        run_extractFeatures = Some True,
        normalizePricing = Some True,
        maxRequestsPerCrawl = Some 6,
        discoverPricingPage = None \<rparr>]"
  by code_simp

section \<open>Shared product objects\<close>

lemma aggregate_cheapest_ref:
  assumes "cheapest (summary (snd (aggregate items team))) = Some a"
  shows "a < length items \<and> lowestPaidPrice (map mk_product items ! a) \<noteq> None"
proof -
  have c: "cheapest (summary (snd (calc_summary (build_comparison items)))) = Some a"
    using assms by (simp add: aggregate_summary)
  then have ne: "paid_refs (map mk_product items) \<noteq> []"
    by (auto simp: summary_cheapest Let_def split: if_splits)
  with c have "find (\<lambda>r. price_key (map mk_product items) r =
                  Min (price_key (map mk_product items) ` set (paid_refs (map mk_product items))))
                 (paid_refs (map mk_product items)) = Some a"
    by (simp add: summary_cheapest Let_def)
  from first_with_key[OF this] show ?thesis by (metis option.distinct(1))
qed

lemma aggregate_mostExpensive_ref:
  assumes "mostExpensive (summary (snd (aggregate items team))) = Some a"
  shows "a < length items \<and> lowestPaidPrice (map mk_product items ! a) \<noteq> None"
proof -
  have c: "mostExpensive (summary (snd (calc_summary (build_comparison items)))) = Some a"
    using assms by (simp add: aggregate_summary)
  then have ne: "paid_refs (map mk_product items) \<noteq> []"
    by (auto simp: summary_mostExpensive Let_def split: if_splits)
  with c have "find (\<lambda>r. price_key (map mk_product items) r =
                  Max (price_key (map mk_product items) ` set (paid_refs (map mk_product items))))
                 (paid_refs (map mk_product items)) = Some a"
    by (simp add: summary_mostExpensive Let_def)
  from first_with_key[OF this] show ?thesis by (metis option.distinct(1))
qed

lemma paid_has_tiers:
  assumes "lowestPaidPrice (mk_product it) \<noteq> None"
  shows "\<exists>ts. tiers it = Some ts"
  using assms by (cases "tiers it") (simp_all add: mk_product_def lowest_paid_None)

lemma shared_entry:
  assumes a: "a < length items" and paid: "lowestPaidPrice (map mk_product items ! a) \<noteq> None"
  shows "products (snd (aggregate items team)) ! a = a \<and>
         fst (aggregate items team) ! a = r_products (serialize (aggregate items team)) ! a \<and>
         (\<forall>n. team = Some n \<and> n \<noteq> 0 \<longrightarrow>
            (\<exists>ts. tiers (items ! a) = Some ts \<and>
               estimatedTeamCost (fst (aggregate items team) ! a) =
                 Some (map (team_cost_of n) (filter is_per_user ts))))"
proof -
  from paid a obtain ts where ts: "tiers (items ! a) = Some ts"
    using paid_has_tiers[of "items ! a"] by auto
  have "products (snd (aggregate items team)) ! a = a"
    using a by (simp add: aggregate_products)
  moreover have "fst (aggregate items team) ! a = r_products (serialize (aggregate items team)) ! a"
    by (simp add: serialize_products)
  moreover have "\<forall>n. team = Some n \<and> n \<noteq> 0 \<longrightarrow>
            (\<exists>ts. tiers (items ! a) = Some ts \<and>
               estimatedTeamCost (fst (aggregate items team) ! a) =
                 Some (map (team_cost_of n) (filter is_per_user ts)))"
    using a ts by (auto simp: aggregate_store_nth)
  ultimately show ?thesis by blast
qed


text \<open>
  A non-null \<open>cheapest\<close> or \<open>mostExpensive\<close> is a reference \<open>a\<close> that is also an entry of
  \<open>products\<close> (entry number \<open>a\<close>), so the summary field and the product entry are printed
  from the same object of the store, whatever the team size.  When the team-cost block
  runs, the \<open>estimatedTeamCost\<close> written into the product entry is therefore present on
  the summary field as well.
\<close>

lemma summary_shares_product_objects:
  "(let hc = aggregate items team; h = fst hc; c = snd hc; r = serialize hc in
      (\<forall>a. cheapest (summary c) = Some a \<or> mostExpensive (summary c) = Some a \<longrightarrow>
         a < length (products c) \<and> products c ! a = a \<and>
         r_products r ! a = h ! a \<and>
         (\<forall>n. team = Some n \<and> n \<noteq> 0 \<longrightarrow>
            (\<exists>ts. tiers (items ! a) = Some ts \<and>
               estimatedTeamCost (h ! a) = Some (map (team_cost_of n) (filter is_per_user ts))))) \<and>
      r_cheapest r = map_option (\<lambda>a. h ! a) (cheapest (summary c)) \<and>
      r_mostExpensive r = map_option (\<lambda>a. h ! a) (mostExpensive (summary c)))"
proof -
  have refs: "a < length (products (snd (aggregate items team))) \<and>
        products (snd (aggregate items team)) ! a = a \<and>
        r_products (serialize (aggregate items team)) ! a = fst (aggregate items team) ! a \<and>
        (\<forall>n. team = Some n \<and> n \<noteq> 0 \<longrightarrow>
            (\<exists>ts. tiers (items ! a) = Some ts \<and>
               estimatedTeamCost (fst (aggregate items team) ! a) =
                 Some (map (team_cost_of n) (filter is_per_user ts))))"
    if "cheapest (summary (snd (aggregate items team))) = Some a \<or>
        mostExpensive (summary (snd (aggregate items team))) = Some a" for a
  proof -
    from that have "a < length items \<and> lowestPaidPrice (map mk_product items ! a) \<noteq> None"
      using aggregate_cheapest_ref aggregate_mostExpensive_ref by blast
    then have a: "a < length items" and paid: "lowestPaidPrice (map mk_product items ! a) \<noteq> None"
      by blast+
    from shared_entry[OF a paid, of team] a show ?thesis
      by (simp add: aggregate_products)
  qed
  have ser: "r_cheapest (serialize (aggregate items team)) =
               map_option (\<lambda>a. fst (aggregate items team) ! a)
                 (cheapest (summary (snd (aggregate items team))))"
            "r_mostExpensive (serialize (aggregate items team)) =
               map_option (\<lambda>a. fst (aggregate items team) ! a)
                 (mostExpensive (summary (snd (aggregate items team))))"
    by (simp_all add: serialize_def Let_def)
  show ?thesis
    unfolding Let_def using refs ser by blast
qed


lemma ComparePricingInput_valid:
  assumes "map_of kvs ''urls'' = Some (JArr (map JStr us))" "\<forall>u\<in>set us. is_url u"
      and "parse_number_optional (map_of kvs ''teamSize'') = Some t"
  shows "ComparePricingInput is_url (Some (JObj kvs)) = Inr \<lparr> compare_urls = us, teamSize = t \<rparr>"
proof -
  have u: "parse_url_array is_url (map_of kvs ''urls'') = Some us"
    by (simp only: assms(1) parse_url_array_strings[OF assms(2)])
  show ?thesis
    by (simp add: ComparePricingInput_object u assms(3))
qed

lemma result_products_length:
  "length (r_products (serialize (aggregate items team))) = length items"
  by (simp add: serialize_products aggregate_store_length)

lemma zero_teamSize_call:
  "ComparePricingInput example_is_url
     (Some (JObj [(''urls'', JArr [JStr ''https://b.com/pricing'']), (''teamSize'', JNum 0)])) =
     Inr \<lparr> compare_urls = [''https://b.com/pricing''], teamSize = Some 0 \<rparr> \<and>
   snd (call_tool example_is_url example_pricing_actor ''compare_saas_pricing''
          (Some (JObj [(''urls'', JArr [JStr ''https://b.com/pricing'']), (''teamSize'', JNum 0)]))) =
     ComparisonText (serialize (aggregate example_items (Some 0)))"
proof -
  have p: "ComparePricingInput example_is_url
     (Some (JObj [(''urls'', JArr [JStr ''https://b.com/pricing'']), (''teamSize'', JNum 0)])) =
     Inr \<lparr> compare_urls = [''https://b.com/pricing''], teamSize = Some 0 \<rparr>"
    by code_simp
  have "snd (compare_saas_pricing example_is_url example_pricing_actor
          (Some (JObj [(''urls'', JArr [JStr ''https://b.com/pricing'']), (''teamSize'', JNum 0)]))) =
     ComparisonText (serialize (aggregate example_items (Some 0)))"
    using compare_saas_pricing_items[OF p, of example_pricing_actor example_items]
    by (simp add: example_pricing_actor_def)
  with p show ?thesis
    by (simp add: call_tool_def)
qed

text \<open>
  C10, at a call with team size 0.  The team size is supplied, and \<open>cheapest\<close> and
  \<open>mostExpensive\<close> are non-null and are the objects of the entries 1 and 0 of \<open>products\<close>;
  the product of entry 1 has a per-seat tier.  But the guard \<^verbatim>\<open>if (input.teamSize)\<close> is
  false for 0, no \<open>estimatedTeamCost\<close> is written, and neither summary field carries one.
\<close>

theorem zero_teamSize_summary_without_cost:
  "cheapest (summary (snd (aggregate example_items (Some 0)))) = Some 1 \<and>
   mostExpensive (summary (snd (aggregate example_items (Some 0)))) = Some 0 \<and>
   products (snd (aggregate example_items (Some 0))) ! 1 = 1 \<and>
   products (snd (aggregate example_items (Some 0))) ! 0 = 0 \<and>
   (\<exists>r. snd (call_tool example_is_url example_pricing_actor ''compare_saas_pricing''
               (Some (JObj [(''urls'', JArr [JStr ''https://b.com/pricing'']),
                            (''teamSize'', JNum 0)]))) = ComparisonText r \<and>
        r_cheapest r = Some (r_products r ! 1) \<and>
        r_mostExpensive r = Some (r_products r ! 0) \<and>
        map_option (filter is_per_user) (p_tiers (r_products r ! 1)) = Some [seat_tier ''Pro'' 8] \<and>
        map_option estimatedTeamCost (r_cheapest r) = Some None \<and>
        map_option estimatedTeamCost (r_mostExpensive r) = Some None)"
proof -
  let ?hc = "aggregate example_items (Some 0)"
  have s: "snd (call_tool example_is_url example_pricing_actor ''compare_saas_pricing''
               (Some (JObj [(''urls'', JArr [JStr ''https://b.com/pricing'']),
                            (''teamSize'', JNum 0)]))) = ComparisonText (serialize ?hc)"
    by (rule conjunct2[OF zero_teamSize_call])
  have c1: "cheapest (summary (snd ?hc)) = Some 1"
    by code_simp
  have c2: "mostExpensive (summary (snd ?hc)) = Some 0"
    by code_simp
  have c3: "products (snd ?hc) ! 1 = 1"
    by code_simp
  have c4: "products (snd ?hc) ! 0 = 0"
    by code_simp
  have r1: "r_cheapest (serialize ?hc) = Some (r_products (serialize ?hc) ! 1)"
    by code_simp
  have r2: "r_mostExpensive (serialize ?hc) = Some (r_products (serialize ?hc) ! 0)"
    by code_simp
  have r3: "map_option (filter is_per_user) (p_tiers (r_products (serialize ?hc) ! 1)) =
              Some [seat_tier ''Pro'' 8]"
    by code_simp
  have r4: "map_option estimatedTeamCost (r_cheapest (serialize ?hc)) = Some None"
    by code_simp
  have r5: "map_option estimatedTeamCost (r_mostExpensive (serialize ?hc)) = Some None"
    by code_simp
  show ?thesis
    by (intro conjI exI) (rule c1 c2 c3 c4 s r1 r2 r3 r4 r5)+
qed

section \<open>A team size of zero or less\<close>

lemma negative_teamSize_call:
  "ComparePricingInput example_is_url
     (Some (JObj [(''urls'', JArr [JStr ''https://b.com/pricing'']), (''teamSize'', JNum (- 2))])) =
     Inr \<lparr> compare_urls = [''https://b.com/pricing''], teamSize = Some (- 2) \<rparr> \<and>
   snd (call_tool example_is_url example_pricing_actor ''compare_saas_pricing''
          (Some (JObj [(''urls'', JArr [JStr ''https://b.com/pricing'']), (''teamSize'', JNum (- 2))]))) =
     ComparisonText (serialize (aggregate example_items (Some (- 2))))"
proof -
  have p: "ComparePricingInput example_is_url
     (Some (JObj [(''urls'', JArr [JStr ''https://b.com/pricing'']), (''teamSize'', JNum (- 2))])) =
     Inr \<lparr> compare_urls = [''https://b.com/pricing''], teamSize = Some (- 2) \<rparr>"
    by code_simp
  have "snd (compare_saas_pricing example_is_url example_pricing_actor
          (Some (JObj [(''urls'', JArr [JStr ''https://b.com/pricing'']), (''teamSize'', JNum (- 2))]))) =
     ComparisonText (serialize (aggregate example_items (Some (- 2))))"
    using compare_saas_pricing_items[OF p, of example_pricing_actor example_items]
    by (simp add: example_pricing_actor_def)
  with p show ?thesis
    by (simp add: call_tool_def)
qed

lemma negative_teamSize_cost:
  "estimatedTeamCost (r_products (serialize (aggregate example_items (Some (- 2)))) ! 1) =
     Some [\<lparr> cost_tier = ''Pro'', monthly = Double (- 16), yearly = Double (- 192) \<rparr>]"
proof -
  have len: "(1::nat) < length example_items"
    by (simp add: example_items_def)
  have ts: "tiers (example_items ! 1) = Some [seat_tier ''Pro'' 8, flat_tier ''Solo'' 5, contact_tier]"
    by code_simp
  have seat: "filter is_per_user [seat_tier ''Pro'' 8, flat_tier ''Solo'' 5, contact_tier] =
                [seat_tier ''Pro'' 8]"
    by code_simp
  have c: "team_cost_of (- 2) (seat_tier ''Pro'' 8) =
             \<lparr> cost_tier = ''Pro'', monthly = Double (- 16), yearly = Double (- 192) \<rparr>"
    using round_double_of_int[of 8] round_double_of_int[of "- 2"]
      round_double_of_int[of "- 16"] round_double_of_int[of "- 192"]
    by (simp add: team_cost_of_def seat_tier_def)
  have "estimatedTeamCost (r_products (serialize (aggregate example_items (Some (- 2)))) ! 1) =
          map_option (\<lambda>ts. map (team_cost_of (- 2)) (filter is_per_user ts))
            (tiers (example_items ! 1))"
    using result_estimatedTeamCost[OF len, of "Some (- 2)"] by simp
  also have "\<dots> = Some [\<lparr> cost_tier = ''Pro'', monthly = Double (- 16), yearly = Double (- 192) \<rparr>]"
    by (simp only: ts seat c option.map list.map)
  finally show ?thesis .
qed

text \<open>
  C6, at a call with team size 0 and one with team size \<open>- 2\<close>.  Both pass validation.
  With \<open>- 2\<close> the team costs are computed, \<open>- 16\<close> a month and \<open>- 192\<close> a year for the
  per-seat tier priced 8.  With 0 the guard \<^verbatim>\<open>if (input.teamSize)\<close> is false, although the
  comment above it reads \<^verbatim>\<open>Calculate team cost if teamSize provided\<close>: the block is
  skipped, no product gets an \<open>estimatedTeamCost\<close>, and no zero costs are produced.
\<close>

theorem zero_teamSize_skips_team_cost:
  "ComparePricingInput example_is_url
     (Some (JObj [(''urls'', JArr [JStr ''https://b.com/pricing'']), (''teamSize'', JNum 0)])) =
     Inr \<lparr> compare_urls = [''https://b.com/pricing''], teamSize = Some 0 \<rparr> \<and>
   (\<exists>r. snd (call_tool example_is_url example_pricing_actor ''compare_saas_pricing''
               (Some (JObj [(''urls'', JArr [JStr ''https://b.com/pricing'']),
                            (''teamSize'', JNum 0)]))) = ComparisonText r \<and>
        map estimatedTeamCost (r_products r) = [None, None, None, None, None, None] \<and>
        estimatedTeamCost (r_products r ! 1) \<noteq>
          Some [\<lparr> cost_tier = ''Pro'', monthly = Double 0, yearly = Double 0 \<rparr>]) \<and>
   (\<exists>r. snd (call_tool example_is_url example_pricing_actor ''compare_saas_pricing''
               (Some (JObj [(''urls'', JArr [JStr ''https://b.com/pricing'']),
                            (''teamSize'', JNum (- 2))]))) = ComparisonText r \<and>
        estimatedTeamCost (r_products r ! 1) =
          Some [\<lparr> cost_tier = ''Pro'', monthly = Double (- 16), yearly = Double (- 192) \<rparr>])"
proof -
  let ?r = "serialize (aggregate example_items (Some 0))"
  have p: "ComparePricingInput example_is_url
     (Some (JObj [(''urls'', JArr [JStr ''https://b.com/pricing'']), (''teamSize'', JNum 0)])) =
     Inr \<lparr> compare_urls = [''https://b.com/pricing''], teamSize = Some 0 \<rparr>"
    by (rule conjunct1[OF zero_teamSize_call])
  have s: "snd (call_tool example_is_url example_pricing_actor ''compare_saas_pricing''
               (Some (JObj [(''urls'', JArr [JStr ''https://b.com/pricing'']),
                            (''teamSize'', JNum 0)]))) = ComparisonText ?r"
    by (rule conjunct2[OF zero_teamSize_call])
  have e1: "map estimatedTeamCost (r_products ?r) = [None, None, None, None, None, None]"
    by code_simp
  have e2: "estimatedTeamCost (r_products ?r ! 1) \<noteq>
              Some [\<lparr> cost_tier = ''Pro'', monthly = Double 0, yearly = Double 0 \<rparr>]"
    by code_simp
  have n: "snd (call_tool example_is_url example_pricing_actor ''compare_saas_pricing''
               (Some (JObj [(''urls'', JArr [JStr ''https://b.com/pricing'']),
                            (''teamSize'', JNum (- 2))]))) =
             ComparisonText (serialize (aggregate example_items (Some (- 2))))"
    by (rule conjunct2[OF negative_teamSize_call])
  show ?thesis
    by (intro conjI exI) (rule p s e1 e2 n negative_teamSize_cost)+
qed

end
